theory Spec2Isabelle
  imports Main "HOL-Library.Sublist" "HOL-Library.Multiset"
begin

section \<open>Strings\<close>

text \<open>
  A JavaScript string is modelled by the list of the bytes of its UTF-8 encoding, so
  that the literals of the source can be written as they stand. The delimiters and
  prefixes the programs look for are ASCII, and UTF-8 never uses an ASCII byte inside
  the encoding of another character, so \<open>startsWith\<close>, \<open>endsWith\<close>, \<open>split\<close> and
  \<open>includes\<close> on code units are \<open>prefix\<close>, \<open>suffix\<close>, splitting at a byte and
  \<open>sublist\<close> on bytes. The one character of the source outside ASCII is the em dash
  U+2014 of the reason strings.
\<close>

definition EM_DASH :: string where
  "EM_DASH = [CHR 0xE2, CHR 0x80, CHR 0x94]"

section \<open>Parsed JSON documents\<close>

text \<open>
  The value \<open>JSON.parse\<close> returns: \<open>null\<close>, a boolean, a number, a string, an array
  or an object. The type of numbers is a parameter: the program never computes with
  a number of a document, it can only render one (\<open>numberToString\<close> below). An object
  is the list of its own properties (the keys of a parsed object are distinct).
\<close>

datatype 'n json =
    JNull
  | JBool bool
  | JNum 'n
  | JStr string
  | JArr "'n json list"
  | JObj "(string \<times> 'n json) list"

datatype exn = TypeError

text \<open>
  \<open>v.k\<close> for one of the property names the program reads (\<open>policyVersion\<close>,
  \<open>enforcementMode\<close>, \<open>allowedActions\<close>, \<open>adapters\<close>, \<open>name\<close>, \<open>constraints\<close>;
  no prototype defines any of them). Reading a property of \<open>null\<close> throws a
  TypeError; on a boolean, number, string or array the result is \<open>undefined\<close>,
  which is \<open>None\<close>.
\<close>

fun getProp :: "'n json \<Rightarrow> string \<Rightarrow> exn + 'n json option" where
  "getProp JNull k = Inl TypeError"
| "getProp (JObj kvs) k = Inr (map_of kvs k)"
| "getProp (JBool b) k = Inr None"
| "getProp (JNum n) k = Inr None"
| "getProp (JStr s) k = Inr None"
| "getProp (JArr xs) k = Inr None"

text \<open>
  \<open>String(v)\<close> and \<open>xs.join(sep)\<close>. An element that is \<open>null\<close> joins as the empty
  string; an array renders as its elements joined by a comma; a plain object renders
  as \<open>[object Object]\<close>, unless it has an own property \<open>toString\<close>: a parsed value is
  never callable, the inherited \<open>valueOf\<close> returns the object, and the conversion
  throws a TypeError.
\<close>

fun toStringJS :: "('n \<Rightarrow> string) \<Rightarrow> 'n json \<Rightarrow> exn + string"
  and joinJS :: "('n \<Rightarrow> string) \<Rightarrow> string \<Rightarrow> 'n json list \<Rightarrow> exn + string" where
  "toStringJS ns JNull = Inr ''null''"
| "toStringJS ns (JBool b) = Inr (if b then ''true'' else ''false'')"
| "toStringJS ns (JNum n) = Inr (ns n)"
| "toStringJS ns (JStr s) = Inr s"
| "toStringJS ns (JArr xs) = joinJS ns '','' xs"
| "toStringJS ns (JObj kvs) =
     (if ''toString'' \<in> fst ` set kvs then Inl TypeError else Inr ''[object Object]'')"
| "joinJS ns sep [] = Inr ''''"
| "joinJS ns sep (x # xs) =
     (case (if x = JNull then Inr '''' else toStringJS ns x) of
        Inl e \<Rightarrow> Inl e
      | Inr s \<Rightarrow>
          (if xs = [] then Inr s
           else case joinJS ns sep xs of
                  Inl e \<Rightarrow> Inl e
                | Inr r \<Rightarrow> Inr (s @ sep @ r)))"

section \<open>The policy gate (enforce-policy-gated-adapter)\<close>

text \<open>
  What the function takes from its host: \<open>path.join\<close>, \<open>readFileSync\<close> and
  \<open>JSON.parse\<close> (each of the last two either throws an Error, modelled by its
  message, or returns), the rendering of a number, and the clock read by
  \<open>new Date().toISOString()\<close>.
\<close>

record 'n host =
  pathJoin :: "string \<Rightarrow> string \<Rightarrow> string"
  readFileSync :: "string \<Rightarrow> string + string"
  jsonParse :: "string \<Rightarrow> string + 'n json"
  numberToString :: "'n \<Rightarrow> string"
  toISOString :: string

definition COMMAND_POLICY_PATH :: string where
  "COMMAND_POLICY_PATH = ''.GITHUB-MODE/runtime/command-policy.json''"

definition ADAPTER_CONTRACTS_PATH :: string where
  "ADAPTER_CONTRACTS_PATH = ''.GITHUB-MODE/runtime/adapter-contracts.json''"

datatype Result = PASS | FAIL

record Base =
  gate :: string
  adapter :: string
  action :: string
  timestamp :: string

record PolicyDecision = Base +
  result :: Result
  reason :: string
  evidence :: string
  policyVersion :: string
  enforcementMode :: string

text \<open>\<open>readJson\<close>: the thrown Error of either step is \<open>Inl\<close> of its message.\<close>

definition readJson :: "'n host \<Rightarrow> string \<Rightarrow> string \<Rightarrow> string + 'n json" where
  "readJson h filePath root =
     (let fullPath = pathJoin h root filePath in
      case readFileSync h fullPath of
        Inl msg \<Rightarrow> Inl msg
      | Inr raw \<Rightarrow> jsonParse h raw)"

text \<open>The object literal \<open>{ ...base, result, reason, evidence, policyVersion, enforcementMode }\<close>.\<close>

definition spread :: "Base \<Rightarrow> Result \<Rightarrow> string \<Rightarrow> string \<Rightarrow> string \<Rightarrow> string \<Rightarrow> PolicyDecision" where
  "spread base res why ev pv em =
     \<lparr>gate = gate base, adapter = adapter base, action = action base,
      timestamp = timestamp base,
      result = res, reason = why, evidence = ev, policyVersion = pv, enforcementMode = em\<rparr>"

text \<open>\<open>typeof v === "string" ? v : "unknown"\<close>.\<close>

definition stringOrUnknown :: "'n json option \<Rightarrow> string" where
  "stringOrUnknown v = (case v of Some (JStr s) \<Rightarrow> s | _ \<Rightarrow> ''unknown'')"

text \<open>The predicate of \<open>adapters.find\<close>: a non-null object whose \<open>name\<close> is the adapter name.\<close>

fun isNamed :: "string \<Rightarrow> 'n json \<Rightarrow> bool" where
  "isNamed adapterName (JObj kvs) = (map_of kvs ''name'' = Some (JStr adapterName))"
| "isNamed adapterName (JArr xs) = False"
| "isNamed adapterName JNull = False"
| "isNamed adapterName (JBool b) = False"
| "isNamed adapterName (JNum n) = False"
| "isNamed adapterName (JStr s) = False"

text \<open>
  \<open>enforcePolicyGatedAdapter\<close>. The result is \<open>Inr\<close> of the decision the function
  returns, or \<open>Inl\<close> of the exception that leaves it. The two reads are inside
  \<open>try\<close>/\<open>catch\<close>; the property reads and the \<open>join\<close> of the denial message are not.
\<close>

definition enforcePolicyGatedAdapter ::
  "'n host \<Rightarrow> string \<Rightarrow> string \<Rightarrow> string \<Rightarrow> exn + PolicyDecision" where
  \<open>enforcePolicyGatedAdapter h root adapterName act =
     (let base = \<lparr>gate = ''policy-gated-adapter'', adapter = adapterName, action = act,
                  timestamp = toISOString h\<rparr> in
      case readJson h COMMAND_POLICY_PATH root of
        Inl msg \<Rightarrow>
          Inr (spread base FAIL (''failed to read command-policy.json: '' @ msg)
                 COMMAND_POLICY_PATH ''unknown'' ''unknown'')
      | Inr commandPolicy \<Rightarrow>
      (case getProp commandPolicy ''policyVersion'' of Inl e \<Rightarrow> Inl e | Inr pvRaw \<Rightarrow>
      (case getProp commandPolicy ''enforcementMode'' of Inl e \<Rightarrow> Inl e | Inr emRaw \<Rightarrow>
       let pv = stringOrUnknown pvRaw; em = stringOrUnknown emRaw in
       if emRaw \<noteq> Some (JStr ''enforce'') then
         Inr (spread base FAIL
                (''command-policy enforcementMode is "'' @ em @ ''", expected "enforce" ''
                   @ EM_DASH @ '' fail-closed denial'')
                COMMAND_POLICY_PATH pv em)
       else
      (case readJson h ADAPTER_CONTRACTS_PATH root of
        Inl msg \<Rightarrow>
          Inr (spread base FAIL (''failed to read adapter-contracts.json: '' @ msg)
                 ADAPTER_CONTRACTS_PATH pv em)
      | Inr adapterContracts \<Rightarrow>
      (case getProp adapterContracts ''adapters'' of Inl e \<Rightarrow> Inl e | Inr adaptersRaw \<Rightarrow>
      (case adaptersRaw of
        Some (JArr adapters) \<Rightarrow>
          (case find (isNamed adapterName) adapters of
            None \<Rightarrow>
              Inr (spread base FAIL
                     (''adapter "'' @ adapterName @ ''" not found in adapter-contracts.json ''
                        @ EM_DASH @ '' fail-closed denial'')
                     ADAPTER_CONTRACTS_PATH pv em)
          | Some adapterFound \<Rightarrow>
          (case getProp adapterFound ''constraints'' of Inl e \<Rightarrow> Inl e | Inr constraintsRaw \<Rightarrow>
           if (case constraintsRaw of Some (JArr cs) \<Rightarrow> cs = [] | _ \<Rightarrow> True) then
             Inr (spread base FAIL
                    (''adapter "'' @ adapterName @ ''" has no constraints defined ''
                       @ EM_DASH @ '' fail-closed denial'')
                    ADAPTER_CONTRACTS_PATH pv em)
           else
          (case getProp commandPolicy ''allowedActions'' of Inl e \<Rightarrow> Inl e | Inr allowedRaw \<Rightarrow>
          (case allowedRaw of
            Some (JArr allowedActions) \<Rightarrow>
              if JStr act \<notin> set allowedActions then
                (case joinJS (numberToString h) '', '' allowedActions of
                  Inl e \<Rightarrow> Inl e
                | Inr allowed \<Rightarrow>
                    Inr (spread base FAIL
                           (''action "'' @ act @ ''" is not in allowedActions (allowed: ''
                              @ allowed @ '') '' @ EM_DASH @ '' policy denial'')
                           COMMAND_POLICY_PATH pv em))
              else
                Inr (spread base PASS
                       (''adapter "'' @ adapterName @ ''" with action "'' @ act
                          @ ''" passed policy gate (enforcement: '' @ em @ '', policy: ''
                          @ pv @ '')'')
                       (COMMAND_POLICY_PATH @ '', '' @ ADAPTER_CONTRACTS_PATH) pv em)
          | _ \<Rightarrow>
              Inr (spread base FAIL
                     (''command-policy allowedActions is not an array ''
                        @ EM_DASH @ '' fail-closed denial'')
                     COMMAND_POLICY_PATH pv em)))))
      | _ \<Rightarrow>
          Inr (spread base FAIL
                 (''adapter-contracts.json adapters is not an array ''
                    @ EM_DASH @ '' fail-closed denial'')
                 ADAPTER_CONTRACTS_PATH pv em)))))))\<close>

text \<open>The \<open>base\<close> of a call, for the statements below.\<close>

abbreviation baseOf :: "'n host \<Rightarrow> string \<Rightarrow> string \<Rightarrow> Base" where
  "baseOf h adapterName act \<equiv>
     \<lparr>gate = ''policy-gated-adapter'', adapter = adapterName, action = act,
      timestamp = toISOString h\<rparr>"

section \<open>The implementation scoreboard (check-implementation-scoreboard)\<close>

subsection \<open>String and array operations of the host language\<close>

definition startsWith :: "string \<Rightarrow> string \<Rightarrow> bool" where
  "startsWith s p = prefix p s"

definition endsWith :: "string \<Rightarrow> string \<Rightarrow> bool" where
  "endsWith s p = suffix p s"

text \<open>\<open>s.split(sep)\<close> for a separator of one character: one field more than separators.\<close>

fun splitJS :: "char \<Rightarrow> string \<Rightarrow> string list" where
  "splitJS sep [] = [[]]"
| "splitJS sep (c # cs) =
     (if c = sep then [] # splitJS sep cs
      else (case splitJS sep cs of
              [] \<Rightarrow> [[c]]
            | f # fs \<Rightarrow> (c # f) # fs))"

text \<open>\<open>xs.join(sep)\<close> on an array of strings.\<close>

fun joinStrings :: "string \<Rightarrow> string list \<Rightarrow> string" where
  "joinStrings sep [] = ''''"
| "joinStrings sep [x] = x"
| "joinStrings sep (x # y # ys) = x @ sep @ joinStrings sep (y # ys)"

text \<open>
  The white space \<open>trim\<close> removes, in UTF-8: TAB, LF, VT, FF, CR, SP, U+00A0, U+1680,
  U+2000 to U+200A, U+2028, U+2029, U+202F, U+205F, U+3000 and U+FEFF.
\<close>

definition WHITE_SPACE :: "string list" where
  "WHITE_SPACE =
     [[CHR 0x09], [CHR 0x0A], [CHR 0x0B], [CHR 0x0C], [CHR 0x0D], [CHR 0x20],
      [CHR 0xC2, CHR 0xA0],
      [CHR 0xE1, CHR 0x9A, CHR 0x80],
      [CHR 0xE2, CHR 0x80, CHR 0x80], [CHR 0xE2, CHR 0x80, CHR 0x81],
      [CHR 0xE2, CHR 0x80, CHR 0x82], [CHR 0xE2, CHR 0x80, CHR 0x83],
      [CHR 0xE2, CHR 0x80, CHR 0x84], [CHR 0xE2, CHR 0x80, CHR 0x85],
      [CHR 0xE2, CHR 0x80, CHR 0x86], [CHR 0xE2, CHR 0x80, CHR 0x87],
      [CHR 0xE2, CHR 0x80, CHR 0x88], [CHR 0xE2, CHR 0x80, CHR 0x89],
      [CHR 0xE2, CHR 0x80, CHR 0x8A],
      [CHR 0xE2, CHR 0x80, CHR 0xA8], [CHR 0xE2, CHR 0x80, CHR 0xA9],
      [CHR 0xE2, CHR 0x80, CHR 0xAF],
      [CHR 0xE2, CHR 0x81, CHR 0x9F],
      [CHR 0xE3, CHR 0x80, CHR 0x80],
      [CHR 0xEF, CHR 0xBB, CHR 0xBF]]"

function trimStart :: "string \<Rightarrow> string" where
  "trimStart s =
     (case find (\<lambda>w. prefix w s) WHITE_SPACE of
        None \<Rightarrow> s
      | Some w \<Rightarrow> trimStart (drop (length w) s))"
  by pat_completeness auto
termination
proof (relation "measure length")
  show "wf (measure length)" by simp
next
  fix s w :: string
  assume "find (\<lambda>w. prefix w s) WHITE_SPACE = Some w"
  then have "w \<in> set WHITE_SPACE" and "prefix w s"
    by (auto simp: find_Some_iff)
  then have "w \<noteq> []" and "length w \<le> length s"
    by (auto simp: WHITE_SPACE_def prefix_length_le)
  then show "(drop (length w) s, s) \<in> measure length"
    by (cases w) auto
qed

function trimEnd :: "string \<Rightarrow> string" where
  "trimEnd s =
     (case find (\<lambda>w. suffix w s) WHITE_SPACE of
        None \<Rightarrow> s
      | Some w \<Rightarrow> trimEnd (take (length s - length w) s))"
  by pat_completeness auto
termination
proof (relation "measure length")
  show "wf (measure length)" by simp
next
  fix s w :: string
  assume "find (\<lambda>w. suffix w s) WHITE_SPACE = Some w"
  then have "w \<in> set WHITE_SPACE" and "suffix w s"
    by (auto simp: find_Some_iff)
  then have "w \<noteq> []" and "length w \<le> length s"
    by (auto simp: WHITE_SPACE_def suffix_length_le)
  then show "(take (length s - length w) s, s) \<in> measure length"
    by (cases w) auto
qed

declare trimStart.simps [simp del] trimEnd.simps [simp del]

definition trim :: "string \<Rightarrow> string" where
  "trim s = trimEnd (trimStart s)"

text \<open>
  The order of \<open>toSorted()\<close> without a comparator: strings by UTF-16 code units. On
  UTF-8 this is the order of the bytes, but for the characters above U+FFFF (lead
  bytes F0 to F4), whose surrogates come before U+E000 to U+FFFF (lead bytes EE, EF).
\<close>

definition unitKey :: "char \<Rightarrow> nat" where
  "unitKey c = (let b = of_char c in if b = 0xEE \<or> b = 0xEF then b + 0x10 else b)"

fun compareCodeUnits :: "string \<Rightarrow> string \<Rightarrow> int" where
  "compareCodeUnits [] [] = 0"
| "compareCodeUnits [] (y # ys) = -1"
| "compareCodeUnits (x # xs) [] = 1"
| "compareCodeUnits (x # xs) (y # ys) =
     (if unitKey x < unitKey y then -1
      else if unitKey y < unitKey x then 1
      else compareCodeUnits xs ys)"

text \<open>
  \<open>xs.toSorted(cmp)\<close>: a new array, sorted stably; \<open>cmp a b \<le> 0\<close> keeps \<open>a\<close> before a
  later \<open>b\<close>. With a consistent comparator every stable sort returns this array; what
  an inconsistent one gives is left to the implementation, and this is one.
\<close>

fun insertSorted :: "('a \<Rightarrow> 'a \<Rightarrow> int) \<Rightarrow> 'a \<Rightarrow> 'a list \<Rightarrow> 'a list" where
  "insertSorted cmp x [] = [x]"
| "insertSorted cmp x (y # ys) =
     (if cmp x y \<le> 0 then x # y # ys else y # insertSorted cmp x ys)"

definition toSorted :: "('a \<Rightarrow> 'a \<Rightarrow> int) \<Rightarrow> 'a list \<Rightarrow> 'a list" where
  "toSorted cmp xs = foldr (insertSorted cmp) xs []"

text \<open>\<open>set.add(x)\<close> on a Set, kept as the list of its elements in insertion order.\<close>

definition setAdd :: "'a list \<Rightarrow> 'a \<Rightarrow> 'a list" where
  "setAdd s x = (if x \<in> set s then s else s @ [x])"

text \<open>The decimal rendering of a count.\<close>

fun showNat :: "nat \<Rightarrow> string" where
  "showNat n =
     (if n < 10 then [''0123456789'' ! n]
      else showNat (n div 10) @ [''0123456789'' ! (n mod 10)])"

declare showNat.simps [simp del]

subsection \<open>Diff entries\<close>

definition SCOREBOARD_PATH :: string where
  "SCOREBOARD_PATH = ''.GITHUB-MODE/runtime/implementation-scoreboard.json''"

definition SPEC_ARTIFACT_PREFIX :: string where
  "SPEC_ARTIFACT_PREFIX = ''.GITHUB-MODE/docs/planning/''"

record DiffEntry =
  status :: string
  path :: string

text \<open>
  The body of the loop of \<open>parseDiffEntries\<close>, on one line: \<open>entries\<close> with what the
  line pushes. \<open>parts[2]\<close> is falsy when the line has no third field or an empty one.
\<close>

definition parseDiffLine :: "DiffEntry list \<Rightarrow> string \<Rightarrow> DiffEntry list" where
  "parseDiffLine entries line =
     (let parts = splitJS (CHR 0x09) line in
      if length parts < 2 then entries
      else
        let st = trim (parts ! 0) in
        if startsWith st ''R'' \<or> startsWith st ''C'' then
          (let entries1 = entries @ [\<lparr>status = st, path = trim (parts ! 1)\<rparr>] in
           if 2 < length parts \<and> parts ! 2 \<noteq> [] then
             entries1 @ [\<lparr>status = st, path = trim (parts ! 2)\<rparr>]
           else entries1)
        else entries @ [\<lparr>status = st, path = trim (parts ! 1)\<rparr>])"

definition parseDiffEntries :: "string \<Rightarrow> DiffEntry list" where
  "parseDiffEntries diffOutput = foldl parseDiffLine [] (splitJS (CHR 0x0A) diffOutput)"

definition isSpecArtifact :: "string \<Rightarrow> bool" where
  "isSpecArtifact p \<longleftrightarrow>
     startsWith p SPEC_ARTIFACT_PREFIX \<and> endsWith p ''.md'' \<and> \<not> endsWith p ''/README.md''"

definition getAddedSpecArtifacts :: "DiffEntry list \<Rightarrow> string list" where
  "getAddedSpecArtifacts entries =
     (let additions =
            foldl (\<lambda>additions entry.
                     if status entry = ''A'' \<and> isSpecArtifact (path entry)
                     then setAdd additions (path entry) else additions)
                  [] entries
      in toSorted compareCodeUnits additions)"

definition hasScoreboardUpdate :: "DiffEntry list \<Rightarrow> bool" where
  "hasScoreboardUpdate entries =
     list_ex (\<lambda>entry. path entry = SCOREBOARD_PATH \<and> status entry \<noteq> ''D'') entries"

text \<open>
  \<open>enforceSpecToImplementationTracking\<close>: \<open>Inl\<close> of the message of the Error it
  throws, \<open>Inr ()\<close> when it returns.
\<close>

definition enforceSpecToImplementationTracking :: "DiffEntry list \<Rightarrow> string + unit" where
  "enforceSpecToImplementationTracking entries =
     (let addedSpecs = getAddedSpecArtifacts entries in
      if length addedSpecs = 0 then Inr ()
      else if \<not> hasScoreboardUpdate entries then
        Inl (joinStrings [CHR 0x0A]
               ([''New planning/spec artifacts were added without updating implementation scoreboard.'',
                 ''Added artifacts:'']
                @ map (\<lambda>artifact. ''  - '' @ artifact) addedSpecs
                @ [''Update '' @ SCOREBOARD_PATH
                     @ '' in the same change to keep spec-vs-implementation tracking current.'']))
      else Inr ())"

subsection \<open>The scoreboard\<close>

text \<open>
  A capability as \<open>loadScoreboard\<close> hands it over: \<open>state\<close> is the string of the
  document, which \<open>validateScoreboard\<close> checks against the three states. The version
  is only copied, so its type \<open>'v\<close> is a parameter. The type \<open>'c\<close> is how the array of
  capabilities is held: by its elements (\<open>Capability list\<close>), or by its address in a
  store of arrays (the last subsection).
\<close>

record Capability =
  capability_id :: string
  description :: string
  state :: string
  capability_evidence :: "string list option"

record ('v, 'c) Scoreboard =
  version :: 'v
  capabilities :: 'c

definition allowedStates :: "string list" where
  "allowedStates = [''spec-only'', ''scaffold'', ''operational'']"

text \<open>
  The loop of \<open>validateScoreboard\<close>, with the Set \<open>ids\<close> of the ids seen so far.
  \<open>Inl\<close> is the message of the Error thrown.
\<close>

fun validateCapabilities :: "string list \<Rightarrow> Capability list \<Rightarrow> string + unit" where
  \<open>validateCapabilities ids [] = Inr ()\<close>
| \<open>validateCapabilities ids (capability # rest) =
     (if capability_id capability = [] \<or> description capability = [] then
        Inl ''Each capability requires non-empty id and description fields.''
      else if capability_id capability \<in> set ids then
        Inl (''Duplicate capability id found: '' @ capability_id capability)
      else
        let ids1 = setAdd ids (capability_id capability) in
        if state capability \<notin> set allowedStates then
          Inl (''Capability '' @ capability_id capability @ '' has invalid state "''
                 @ state capability @ ''". '' @ ''Expected one of: ''
                 @ joinStrings '', '' allowedStates @ ''.'')
        else validateCapabilities ids1 rest)\<close>

definition validateScoreboard :: "('v, Capability list) Scoreboard \<Rightarrow> string + unit" where
  "validateScoreboard scoreboard =
     (if length (capabilities scoreboard) = 0 then
        Inl ''implementation-scoreboard.json must contain at least one capability.''
      else validateCapabilities [] (capabilities scoreboard))"

text \<open>
  The counts object, by its three declared keys. \<open>counts[state] += 1\<close> with a state
  that is none of the three sets another key and leaves these three as they are.
\<close>

record ScoreCounts =
  spec_only :: nat
  scaffold :: nat
  operational :: nat

definition increment :: "ScoreCounts \<Rightarrow> string \<Rightarrow> ScoreCounts" where
  "increment counts st =
     (if st = ''spec-only'' then counts\<lparr>spec_only := spec_only counts + 1\<rparr>
      else if st = ''scaffold'' then counts\<lparr>scaffold := scaffold counts + 1\<rparr>
      else if st = ''operational'' then counts\<lparr>operational := operational counts + 1\<rparr>
      else counts)"

definition getScoreCounts :: "('v, Capability list) Scoreboard \<Rightarrow> ScoreCounts" where
  "getScoreCounts scoreboard =
     foldl (\<lambda>counts capability. increment counts (state capability))
       \<lparr>spec_only = 0, scaffold = 0, operational = 0\<rparr> (capabilities scoreboard)"

definition renderSummaryMarkdown :: "('v, Capability list) Scoreboard \<Rightarrow> string" where
  "renderSummaryMarkdown scoreboard =
     (let counts = getScoreCounts scoreboard;
          total = length (capabilities scoreboard);
          operationalRatio = showNat (operational counts) @ ''/'' @ showNat total
      in joinStrings [CHR 0x0A]
           [''- Capabilities tracked: **'' @ showNat total @ ''**'',
            ''- Operational: **'' @ showNat (operational counts) @ ''**'',
            ''- Scaffold: **'' @ showNat (scaffold counts) @ ''**'',
            ''- Spec-only: **'' @ showNat (spec_only counts) @ ''**'',
            ''- Implementation ratio (operational/total): **'' @ operationalRatio @ ''**''])"

record ('v, 'c) ParityReport =
  generatedAt :: string
  scoreboardVersion :: 'v
  summary :: string
  counts :: ScoreCounts
  totalCapabilities :: nat
  report_capabilities :: 'c

text \<open>
  \<open>buildParityReport\<close>. \<open>localeCompare\<close> is the collation of the host's locale, a
  parameter. The spread \<open>[...scoreboard.capabilities]\<close> is a copy with the same
  elements, which \<open>toSorted\<close> then reads.
\<close>

definition buildParityReport ::
  "(string \<Rightarrow> string \<Rightarrow> int) \<Rightarrow> ('v, Capability list) Scoreboard
     \<Rightarrow> ('v, Capability list) ParityReport" where
  "buildParityReport localeCompare scoreboard =
     (let counts = getScoreCounts scoreboard in
      \<lparr>generatedAt = ''1970-01-01T00:00:00.000Z'',
       scoreboardVersion = version scoreboard,
       summary = renderSummaryMarkdown scoreboard,
       counts = counts,
       totalCapabilities = length (capabilities scoreboard),
       report_capabilities =
         toSorted (\<lambda>a b. localeCompare (capability_id a) (capability_id b))
           (capabilities scoreboard)\<rparr>)"

subsection \<open>Arrays in a store\<close>

text \<open>
  Whether \<open>buildParityReport\<close> writes the array it is given cannot be read off a
  function on lists. Here the arrays are the cells of a store, a scoreboard holds the
  address of its array, and every array operation says which cell it reads and which
  it allocates. \<open>nextRef\<close> is the next address to hand out. No operation that
  \<open>buildParityReport\<close> calls writes an existing cell (\<open>sort\<close> would; \<open>toSorted\<close>
  does not).
\<close>

record store =
  cells :: "nat \<rightharpoonup> Capability list"
  nextRef :: nat

definition allocArray :: "store \<Rightarrow> Capability list \<Rightarrow> store \<times> nat" where
  "allocArray s xs =
     (s\<lparr>cells := (cells s)(nextRef s \<mapsto> xs), nextRef := Suc (nextRef s)\<rparr>, nextRef s)"

text \<open>\<open>[...a]\<close>: a new array with the elements of the array at \<open>a\<close>.\<close>

definition spreadArray :: "store \<Rightarrow> nat \<Rightarrow> (store \<times> nat) option" where
  "spreadArray s a =
     (case cells s a of None \<Rightarrow> None | Some xs \<Rightarrow> Some (allocArray s xs))"

text \<open>\<open>a.toSorted(cmp)\<close>: a new array with the elements of the array at \<open>a\<close>, sorted.\<close>

definition toSortedArray ::
  "(Capability \<Rightarrow> Capability \<Rightarrow> int) \<Rightarrow> store \<Rightarrow> nat \<Rightarrow> (store \<times> nat) option" where
  "toSortedArray cmp s a =
     (case cells s a of None \<Rightarrow> None | Some xs \<Rightarrow> Some (allocArray s (toSorted cmp xs)))"

text \<open>
  \<open>buildParityReport\<close> on a scoreboard in the store: the new store and the report,
  whose \<open>capabilities\<close> is the address of the sorted array. \<open>None\<close> stands for an
  address that holds no array, which a reference of the program never is.
\<close>

definition buildParityReport_store ::
  "(string \<Rightarrow> string \<Rightarrow> int) \<Rightarrow> store \<Rightarrow> ('v, nat) Scoreboard
     \<Rightarrow> (store \<times> ('v, nat) ParityReport) option" where
  "buildParityReport_store localeCompare s scoreboard =
     (case cells s (capabilities scoreboard) of
        None \<Rightarrow> None
      | Some caps \<Rightarrow>
          let read = \<lparr>version = version scoreboard, capabilities = caps\<rparr>;
              counts = getScoreCounts read;
              rendered = renderSummaryMarkdown read
          in (case spreadArray s (capabilities scoreboard) of
                None \<Rightarrow> None
              | Some (s1, copyRef) \<Rightarrow>
                  (case toSortedArray
                          (\<lambda>a b. localeCompare (capability_id a) (capability_id b)) s1 copyRef of
                     None \<Rightarrow> None
                   | Some (s2, sortedRef) \<Rightarrow>
                       Some (s2,
                         \<lparr>generatedAt = ''1970-01-01T00:00:00.000Z'',
                          scoreboardVersion = version scoreboard,
                          summary = rendered,
                          counts = counts,
                          totalCapabilities = length caps,
                          report_capabilities = sortedRef\<rparr>))))"

section \<open>Example inputs\<close>

text \<open>
  A host with a repository at \<open>/repo\<close> whose two contract files parse to the given
  documents (or fail to parse), and with the given clock. The documents are those of
  the test fixtures of the repository.
\<close>

definition fixtureHost :: "string + nat json \<Rightarrow> string + nat json \<Rightarrow> string \<Rightarrow> nat host" where
  "fixtureHost policy contracts clock =
     \<lparr>pathJoin = (\<lambda>root p. root @ ''/'' @ p),
      readFileSync =
        (\<lambda>p. if p = ''/repo/'' @ COMMAND_POLICY_PATH then Inr ''policy text''
             else if p = ''/repo/'' @ ADAPTER_CONTRACTS_PATH then Inr ''contracts text''
             else Inl ''ENOENT: no such file or directory''),
      jsonParse =
        (\<lambda>raw. if raw = ''policy text'' then policy
               else if raw = ''contracts text'' then contracts
               else Inl ''Unexpected token''),
      numberToString = showNat,
      toISOString = clock\<rparr>"

definition policyWithMode :: "nat json option \<Rightarrow> nat json" where
  "policyWithMode mode =
     JObj ([(''schemaVersion'', JStr ''1.0''), (''policyVersion'', JStr ''v1.0.0'')]
           @ (case mode of None \<Rightarrow> [] | Some m \<Rightarrow> [(''enforcementMode'', m)])
           @ [(''allowedActions'', JArr [JStr ''plan'', JStr ''validate'', JStr ''open-pr''])])"

definition validPolicy :: "nat json" where
  "validPolicy = policyWithMode (Some (JStr ''enforce''))"

definition unprintablePolicy :: "nat json" where
  "unprintablePolicy =
     JObj [(''policyVersion'', JStr ''v1.0.0''), (''enforcementMode'', JStr ''enforce''),
           (''allowedActions'', JArr [JStr ''plan'', JObj [(''toString'', JNull)]])]"

definition validContracts :: "nat json" where
  "validContracts =
     JObj [(''schemaVersion'', JStr ''1.0''),
           (''contractsVersion'', JStr ''v1.0.0''),
           (''adapters'',
            JArr [JObj [(''name'', JStr ''repo-write''),
                        (''trustLevels'', JArr [JStr ''trusted'']),
                        (''constraints'',
                         JArr [JStr ''No direct writes to protected branches.''])],
                  JObj [(''name'', JStr ''policy-sim''),
                        (''trustLevels'', JArr [JStr ''untrusted'', JStr ''trusted'']),
                        (''constraints'',
                         JArr [JStr ''Read-only execution in untrusted contexts.''])]])]"

definition clock1 :: string where
  "clock1 = ''2026-02-20T10:00:00.000Z''"


definition cap :: "string \<Rightarrow> string \<Rightarrow> string \<Rightarrow> Capability" where
  "cap i d st = \<lparr>capability_id = i, description = d, state = st, capability_evidence = None\<rparr>"

definition validScoreboard :: "(nat, Capability list) Scoreboard" where
  "validScoreboard =
     \<lparr>version = 1,
      capabilities = [cap ''c'' ''C'' ''spec-only'', cap ''a'' ''A'' ''operational'',
                      cap ''b'' ''B'' ''scaffold'']\<rparr>"

definition permutedScoreboard :: "(nat, Capability list) Scoreboard" where
  "permutedScoreboard =
     \<lparr>version = 1,
      capabilities = [cap ''b'' ''B'' ''scaffold'', cap ''c'' ''C'' ''spec-only'',
                      cap ''a'' ''A'' ''operational'']\<rparr>"

definition sameIdScoreboard :: "(nat, Capability list) Scoreboard" where
  "sameIdScoreboard =
     \<lparr>version = 1,
      capabilities = [cap ''same'' ''x'' ''operational'', cap ''same'' ''y'' ''scaffold'']\<rparr>"

definition sameIdPermuted :: "(nat, Capability list) Scoreboard" where
  "sameIdPermuted =
     \<lparr>version = 1,
      capabilities = [cap ''same'' ''y'' ''scaffold'', cap ''same'' ''x'' ''operational'']\<rparr>"

text \<open>
  A collation that ties canonically equivalent strings, as \<open>localeCompare\<close> does: it
  reads \<open>e\<close> followed by the combining acute accent U+0301 as the letter U+00E9. The
  two ids of \<open>accentScoreboard\<close> are different strings that it ties.
\<close>

fun composeAcute :: "string \<Rightarrow> string" where
  "composeAcute [] = []"
| "composeAcute (c # cs) =
     (if c = CHR 0x65 \<and> take 2 cs = [CHR 0xCC, CHR 0x81]
      then CHR 0xC3 # CHR 0xA9 # composeAcute (drop 2 cs)
      else c # composeAcute cs)"

definition canonicalCompare :: "string \<Rightarrow> string \<Rightarrow> int" where
  "canonicalCompare a b = compareCodeUnits (composeAcute a) (composeAcute b)"

definition accentScoreboard :: "(nat, Capability list) Scoreboard" where
  "accentScoreboard =
     \<lparr>version = 1,
      capabilities = [cap (''caf'' @ [CHR 0xC3, CHR 0xA9]) ''precomposed'' ''operational'',
                      cap (''cafe'' @ [CHR 0xCC, CHR 0x81]) ''decomposed'' ''scaffold'']\<rparr>"

definition accentPermuted :: "(nat, Capability list) Scoreboard" where
  "accentPermuted =
     \<lparr>version = 1,
      capabilities = [cap (''cafe'' @ [CHR 0xCC, CHR 0x81]) ''decomposed'' ''scaffold'',
                      cap (''caf'' @ [CHR 0xC3, CHR 0xA9]) ''precomposed'' ''operational'']\<rparr>"

definition exampleStore :: store where
  "exampleStore =
     \<lparr>cells = [0 \<mapsto> capabilities validScoreboard, 1 \<mapsto> capabilities sameIdScoreboard],
      nextRef = 2\<rparr>"

text \<open>Diff entries of the tests, and a rename line of \<open>git diff --name-status\<close>.\<close>

definition unpairedEntries :: "DiffEntry list" where
  "unpairedEntries = [\<lparr>status = ''A'', path = ''.GITHUB-MODE/docs/planning/phase-6.md''\<rparr>]"

definition pairedEntries :: "DiffEntry list" where
  "pairedEntries =
     [\<lparr>status = ''A'', path = ''.GITHUB-MODE/docs/planning/phase-6.md''\<rparr>,
      \<lparr>status = ''M'', path = ''.GITHUB-MODE/runtime/implementation-scoreboard.json''\<rparr>]"

definition renameLine :: string where
  "renameLine = ''R100'' @ [CHR 0x09] @ ''docs/old.md'' @ [CHR 0x09] @ ''docs/new.md''"

section \<open>Properties of the policy gate\<close>

lemma stringOrUnknown_simps [simp]:
  "stringOrUnknown (Some (JStr s)) = s"
  "stringOrUnknown None = ''unknown''"
  "stringOrUnknown (Some JNull) = ''unknown''"
  "stringOrUnknown (Some (JBool b)) = ''unknown''"
  "stringOrUnknown (Some (JNum n)) = ''unknown''"
  "stringOrUnknown (Some (JArr xs)) = ''unknown''"
  "stringOrUnknown (Some (JObj kvs)) = ''unknown''"
  by (simp_all add: stringOrUnknown_def)

lemma getProp_not_null: "v \<noteq> JNull \<Longrightarrow> \<exists>r. getProp v k = Inr r"
  by (cases v) simp_all

lemma enforce_policy_unreadable:
  assumes "readJson h COMMAND_POLICY_PATH root = Inl msg"
  shows "enforcePolicyGatedAdapter h root adapterName act =
           Inr (spread (baseOf h adapterName act) FAIL
                  (''failed to read command-policy.json: '' @ msg)
                  COMMAND_POLICY_PATH ''unknown'' ''unknown'')"
  by (simp add: enforcePolicyGatedAdapter_def assms)

lemma enforce_policy_null:
  assumes "readJson h COMMAND_POLICY_PATH root = Inr JNull"
  shows "enforcePolicyGatedAdapter h root adapterName act = Inl TypeError"
  by (simp add: enforcePolicyGatedAdapter_def assms)

lemma enforce_mode_not_enforce:
  assumes "readJson h COMMAND_POLICY_PATH root = Inr policy"
    and "getProp policy ''policyVersion'' = Inr pvRaw"
    and "getProp policy ''enforcementMode'' = Inr emRaw"
    and "emRaw \<noteq> Some (JStr ''enforce'')"
  shows \<open>enforcePolicyGatedAdapter h root adapterName act =
           Inr (spread (baseOf h adapterName act) FAIL
                  (''command-policy enforcementMode is "'' @ stringOrUnknown emRaw
                     @ ''", expected "enforce" '' @ EM_DASH @ '' fail-closed denial'')
                  COMMAND_POLICY_PATH (stringOrUnknown pvRaw) (stringOrUnknown emRaw))\<close>
  by (simp add: enforcePolicyGatedAdapter_def assms Let_def)

lemma enforce_contracts_unreadable:
  assumes "readJson h COMMAND_POLICY_PATH root = Inr policy"
    and "getProp policy ''policyVersion'' = Inr pvRaw"
    and "getProp policy ''enforcementMode'' = Inr (Some (JStr ''enforce''))"
    and "readJson h ADAPTER_CONTRACTS_PATH root = Inl msg"
  shows \<open>enforcePolicyGatedAdapter h root adapterName act =
           Inr (spread (baseOf h adapterName act) FAIL
                  (''failed to read adapter-contracts.json: '' @ msg)
                  ADAPTER_CONTRACTS_PATH (stringOrUnknown pvRaw) ''enforce'')\<close>
  by (simp add: enforcePolicyGatedAdapter_def assms Let_def)

lemma enforce_contracts_null:
  assumes "readJson h COMMAND_POLICY_PATH root = Inr policy"
    and "getProp policy ''policyVersion'' = Inr pvRaw"
    and "getProp policy ''enforcementMode'' = Inr (Some (JStr ''enforce''))"
    and "readJson h ADAPTER_CONTRACTS_PATH root = Inr JNull"
  shows "enforcePolicyGatedAdapter h root adapterName act = Inl TypeError"
  by (simp add: enforcePolicyGatedAdapter_def assms Let_def)

lemma enforce_adapters_not_array:
  assumes "readJson h COMMAND_POLICY_PATH root = Inr policy"
    and "getProp policy ''policyVersion'' = Inr pvRaw"
    and "getProp policy ''enforcementMode'' = Inr (Some (JStr ''enforce''))"
    and "readJson h ADAPTER_CONTRACTS_PATH root = Inr contracts"
    and "getProp contracts ''adapters'' = Inr adaptersRaw"
    and "\<forall>xs. adaptersRaw \<noteq> Some (JArr xs)"
  shows \<open>enforcePolicyGatedAdapter h root adapterName act =
           Inr (spread (baseOf h adapterName act) FAIL
                  (''adapter-contracts.json adapters is not an array ''
                     @ EM_DASH @ '' fail-closed denial'')
                  ADAPTER_CONTRACTS_PATH (stringOrUnknown pvRaw) ''enforce'')\<close>
  using assms(6)
  by (simp add: enforcePolicyGatedAdapter_def assms(1-5) Let_def
        split: option.splits json.splits)

lemma enforce_adapter_missing:
  assumes "readJson h COMMAND_POLICY_PATH root = Inr policy"
    and "getProp policy ''policyVersion'' = Inr pvRaw"
    and "getProp policy ''enforcementMode'' = Inr (Some (JStr ''enforce''))"
    and "readJson h ADAPTER_CONTRACTS_PATH root = Inr contracts"
    and "getProp contracts ''adapters'' = Inr (Some (JArr adapters))"
    and "find (isNamed adapterName) adapters = None"
  shows \<open>enforcePolicyGatedAdapter h root adapterName act =
           Inr (spread (baseOf h adapterName act) FAIL
                  (''adapter "'' @ adapterName @ ''" not found in adapter-contracts.json ''
                     @ EM_DASH @ '' fail-closed denial'')
                  ADAPTER_CONTRACTS_PATH (stringOrUnknown pvRaw) ''enforce'')\<close>
  by (simp add: enforcePolicyGatedAdapter_def assms Let_def)

lemma enforce_no_constraints:
  assumes "readJson h COMMAND_POLICY_PATH root = Inr policy"
    and "getProp policy ''policyVersion'' = Inr pvRaw"
    and "getProp policy ''enforcementMode'' = Inr (Some (JStr ''enforce''))"
    and "readJson h ADAPTER_CONTRACTS_PATH root = Inr contracts"
    and "getProp contracts ''adapters'' = Inr (Some (JArr adapters))"
    and "find (isNamed adapterName) adapters = Some adapterFound"
    and "getProp adapterFound ''constraints'' = Inr constraintsRaw"
    and "\<forall>c cs. constraintsRaw \<noteq> Some (JArr (c # cs))"
  shows \<open>enforcePolicyGatedAdapter h root adapterName act =
           Inr (spread (baseOf h adapterName act) FAIL
                  (''adapter "'' @ adapterName @ ''" has no constraints defined ''
                     @ EM_DASH @ '' fail-closed denial'')
                  ADAPTER_CONTRACTS_PATH (stringOrUnknown pvRaw) ''enforce'')\<close>
proof -
  have "(case constraintsRaw of Some (JArr cs) \<Rightarrow> cs = [] | _ \<Rightarrow> True)"
  proof (cases constraintsRaw)
    case None
    then show ?thesis by simp
  next
    case (Some v)
    show ?thesis
    proof (cases v)
      case (JArr xs)
      with Some assms(8) show ?thesis by (cases xs) simp_all
    qed (simp_all add: Some)
  qed
  then show ?thesis
    by (simp add: enforcePolicyGatedAdapter_def assms(1-7) Let_def)
qed

lemma enforce_actions_not_array:
  assumes "readJson h COMMAND_POLICY_PATH root = Inr policy"
    and "getProp policy ''policyVersion'' = Inr pvRaw"
    and "getProp policy ''enforcementMode'' = Inr (Some (JStr ''enforce''))"
    and "readJson h ADAPTER_CONTRACTS_PATH root = Inr contracts"
    and "getProp contracts ''adapters'' = Inr (Some (JArr adapters))"
    and "find (isNamed adapterName) adapters = Some adapterFound"
    and "getProp adapterFound ''constraints'' = Inr (Some (JArr (c # cs)))"
    and "getProp policy ''allowedActions'' = Inr allowedRaw"
    and "\<forall>xs. allowedRaw \<noteq> Some (JArr xs)"
  shows \<open>enforcePolicyGatedAdapter h root adapterName act =
           Inr (spread (baseOf h adapterName act) FAIL
                  (''command-policy allowedActions is not an array ''
                     @ EM_DASH @ '' fail-closed denial'')
                  COMMAND_POLICY_PATH (stringOrUnknown pvRaw) ''enforce'')\<close>
  using assms(9)
  by (simp add: enforcePolicyGatedAdapter_def assms(1-8) Let_def
        split: option.splits json.splits)

lemma enforce_action_denied:
  assumes "readJson h COMMAND_POLICY_PATH root = Inr policy"
    and "getProp policy ''policyVersion'' = Inr pvRaw"
    and "getProp policy ''enforcementMode'' = Inr (Some (JStr ''enforce''))"
    and "readJson h ADAPTER_CONTRACTS_PATH root = Inr contracts"
    and "getProp contracts ''adapters'' = Inr (Some (JArr adapters))"
    and "find (isNamed adapterName) adapters = Some adapterFound"
    and "getProp adapterFound ''constraints'' = Inr (Some (JArr (c # cs)))"
    and "getProp policy ''allowedActions'' = Inr (Some (JArr allowedActions))"
    and "JStr act \<notin> set allowedActions"
  shows \<open>enforcePolicyGatedAdapter h root adapterName act =
           (case joinJS (numberToString h) '', '' allowedActions of
              Inl e \<Rightarrow> Inl e
            | Inr allowed \<Rightarrow>
                Inr (spread (baseOf h adapterName act) FAIL
                  (''action "'' @ act @ ''" is not in allowedActions (allowed: ''
                     @ allowed @ '') '' @ EM_DASH @ '' policy denial'')
                  COMMAND_POLICY_PATH (stringOrUnknown pvRaw) ''enforce''))\<close>
  by (simp add: enforcePolicyGatedAdapter_def assms Let_def)

lemma enforce_action_allowed:
  assumes "readJson h COMMAND_POLICY_PATH root = Inr policy"
    and "getProp policy ''policyVersion'' = Inr pvRaw"
    and "getProp policy ''enforcementMode'' = Inr (Some (JStr ''enforce''))"
    and "readJson h ADAPTER_CONTRACTS_PATH root = Inr contracts"
    and "getProp contracts ''adapters'' = Inr (Some (JArr adapters))"
    and "find (isNamed adapterName) adapters = Some adapterFound"
    and "getProp adapterFound ''constraints'' = Inr (Some (JArr (c # cs)))"
    and "getProp policy ''allowedActions'' = Inr (Some (JArr allowedActions))"
    and "JStr act \<in> set allowedActions"
  shows \<open>enforcePolicyGatedAdapter h root adapterName act =
           Inr (spread (baseOf h adapterName act) PASS
                  (''adapter "'' @ adapterName @ ''" with action "'' @ act
                     @ ''" passed policy gate (enforcement: enforce, policy: ''
                     @ stringOrUnknown pvRaw @ '')'')
                  (COMMAND_POLICY_PATH @ '', '' @ ADAPTER_CONTRACTS_PATH)
                  (stringOrUnknown pvRaw) ''enforce'')\<close>
  by (simp add: enforcePolicyGatedAdapter_def assms Let_def)


lemma isNamed_iff:
  "isNamed adapterName v \<longleftrightarrow> (\<exists>kvs. v = JObj kvs \<and> map_of kvs ''name'' = Some (JStr adapterName))"
  by (cases v) simp_all

lemma isNamed_not_null: "isNamed adapterName v \<Longrightarrow> v \<noteq> JNull"
  by (cases v) simp_all

lemma gate_paths
  [case_names policy_unreadable policy_null mode_not_enforce contracts_unreadable
     contracts_null adapters_not_array adapter_missing no_constraints
     actions_not_array action_denied action_allowed]:
  fixes h :: "'n host"
  obtains
    msg where "readJson h COMMAND_POLICY_PATH root = Inl msg"
  | "readJson h COMMAND_POLICY_PATH root = Inr JNull"
  | policy pvRaw emRaw where
      "readJson h COMMAND_POLICY_PATH root = Inr policy"
      "getProp policy ''policyVersion'' = Inr pvRaw"
      "getProp policy ''enforcementMode'' = Inr emRaw"
      "emRaw \<noteq> Some (JStr ''enforce'')"
  | policy pvRaw msg where
      "readJson h COMMAND_POLICY_PATH root = Inr policy"
      "getProp policy ''policyVersion'' = Inr pvRaw"
      "getProp policy ''enforcementMode'' = Inr (Some (JStr ''enforce''))"
      "readJson h ADAPTER_CONTRACTS_PATH root = Inl msg"
  | policy pvRaw where
      "readJson h COMMAND_POLICY_PATH root = Inr policy"
      "getProp policy ''policyVersion'' = Inr pvRaw"
      "getProp policy ''enforcementMode'' = Inr (Some (JStr ''enforce''))"
      "readJson h ADAPTER_CONTRACTS_PATH root = Inr JNull"
  | policy pvRaw contracts adaptersRaw where
      "readJson h COMMAND_POLICY_PATH root = Inr policy"
      "getProp policy ''policyVersion'' = Inr pvRaw"
      "getProp policy ''enforcementMode'' = Inr (Some (JStr ''enforce''))"
      "readJson h ADAPTER_CONTRACTS_PATH root = Inr contracts"
      "getProp contracts ''adapters'' = Inr adaptersRaw"
      "\<forall>xs. adaptersRaw \<noteq> Some (JArr xs)"
  | policy pvRaw contracts adapters where
      "readJson h COMMAND_POLICY_PATH root = Inr policy"
      "getProp policy ''policyVersion'' = Inr pvRaw"
      "getProp policy ''enforcementMode'' = Inr (Some (JStr ''enforce''))"
      "readJson h ADAPTER_CONTRACTS_PATH root = Inr contracts"
      "getProp contracts ''adapters'' = Inr (Some (JArr adapters))"
      "find (isNamed adapterName) adapters = None"
  | policy pvRaw contracts adapters adapterFound constraintsRaw where
      "readJson h COMMAND_POLICY_PATH root = Inr policy"
      "getProp policy ''policyVersion'' = Inr pvRaw"
      "getProp policy ''enforcementMode'' = Inr (Some (JStr ''enforce''))"
      "readJson h ADAPTER_CONTRACTS_PATH root = Inr contracts"
      "getProp contracts ''adapters'' = Inr (Some (JArr adapters))"
      "find (isNamed adapterName) adapters = Some adapterFound"
      "getProp adapterFound ''constraints'' = Inr constraintsRaw"
      "\<forall>c cs. constraintsRaw \<noteq> Some (JArr (c # cs))"
  | policy pvRaw contracts adapters adapterFound c cs allowedRaw where
      "readJson h COMMAND_POLICY_PATH root = Inr policy"
      "getProp policy ''policyVersion'' = Inr pvRaw"
      "getProp policy ''enforcementMode'' = Inr (Some (JStr ''enforce''))"
      "readJson h ADAPTER_CONTRACTS_PATH root = Inr contracts"
      "getProp contracts ''adapters'' = Inr (Some (JArr adapters))"
      "find (isNamed adapterName) adapters = Some adapterFound"
      "getProp adapterFound ''constraints'' = Inr (Some (JArr (c # cs)))"
      "getProp policy ''allowedActions'' = Inr allowedRaw"
      "\<forall>xs. allowedRaw \<noteq> Some (JArr xs)"
  | policy pvRaw contracts adapters adapterFound c cs allowedActions where
      "readJson h COMMAND_POLICY_PATH root = Inr policy"
      "getProp policy ''policyVersion'' = Inr pvRaw"
      "getProp policy ''enforcementMode'' = Inr (Some (JStr ''enforce''))"
      "readJson h ADAPTER_CONTRACTS_PATH root = Inr contracts"
      "getProp contracts ''adapters'' = Inr (Some (JArr adapters))"
      "find (isNamed adapterName) adapters = Some adapterFound"
      "getProp adapterFound ''constraints'' = Inr (Some (JArr (c # cs)))"
      "getProp policy ''allowedActions'' = Inr (Some (JArr allowedActions))"
      "JStr act \<notin> set allowedActions"
  | policy pvRaw contracts adapters adapterFound c cs allowedActions where
      "readJson h COMMAND_POLICY_PATH root = Inr policy"
      "getProp policy ''policyVersion'' = Inr pvRaw"
      "getProp policy ''enforcementMode'' = Inr (Some (JStr ''enforce''))"
      "readJson h ADAPTER_CONTRACTS_PATH root = Inr contracts"
      "getProp contracts ''adapters'' = Inr (Some (JArr adapters))"
      "find (isNamed adapterName) adapters = Some adapterFound"
      "getProp adapterFound ''constraints'' = Inr (Some (JArr (c # cs)))"
      "getProp policy ''allowedActions'' = Inr (Some (JArr allowedActions))"
      "JStr act \<in> set allowedActions"
proof (cases "readJson h COMMAND_POLICY_PATH root")
  case (Inl msg)
  then show thesis by (rule that(1))
next
  case policy: (Inr policy)
  show thesis
  proof (cases "policy = JNull")
    case True
    with policy show thesis by (simp add: that(2))
  next
    case False
    then obtain pvRaw emRaw allowedRaw where
      pv: "getProp policy ''policyVersion'' = Inr pvRaw" and
      em: "getProp policy ''enforcementMode'' = Inr emRaw" and
      aa: "getProp policy ''allowedActions'' = Inr allowedRaw"
      using getProp_not_null by meson
    show thesis
    proof (cases "emRaw = Some (JStr ''enforce'')")
      case False
      with policy pv em show thesis by (rule that(3))
    next
      case True
      with em have em': "getProp policy ''enforcementMode'' = Inr (Some (JStr ''enforce''))"
        by simp
      show thesis
      proof (cases "readJson h ADAPTER_CONTRACTS_PATH root")
        case (Inl msg)
        with policy pv em' show thesis by (rule that(4))
      next
        case contracts: (Inr contracts)
        show thesis
        proof (cases "contracts = JNull")
          case True
          with contracts have "readJson h ADAPTER_CONTRACTS_PATH root = Inr JNull" by simp
          with policy pv em' show thesis by (rule that(5))
        next
          case False
          then obtain adaptersRaw where
            ad: "getProp contracts ''adapters'' = Inr adaptersRaw"
            using getProp_not_null by meson
          show thesis
          proof (cases "\<exists>xs. adaptersRaw = Some (JArr xs)")
            case False
            then have "\<forall>xs. adaptersRaw \<noteq> Some (JArr xs)" by simp
            with policy pv em' contracts ad show thesis by (rule that(6))
          next
            case True
            then obtain adapters where
              ad': "getProp contracts ''adapters'' = Inr (Some (JArr adapters))"
              using ad by auto
            show thesis
            proof (cases "find (isNamed adapterName) adapters")
              case None
              with policy pv em' contracts ad' show thesis by (rule that(7))
            next
              case found: (Some adapterFound)
              then have "isNamed adapterName adapterFound"
                by (auto simp: find_Some_iff)
              then have "adapterFound \<noteq> JNull" by (rule isNamed_not_null)
              then obtain constraintsRaw where
                co: "getProp adapterFound ''constraints'' = Inr constraintsRaw"
                using getProp_not_null by meson
              show thesis
              proof (cases "\<exists>c cs. constraintsRaw = Some (JArr (c # cs))")
                case False
                then have "\<forall>c cs. constraintsRaw \<noteq> Some (JArr (c # cs))" by simp
                with policy pv em' contracts ad' found co show thesis by (rule that(8))
              next
                case True
                then obtain c cs where
                  co': "getProp adapterFound ''constraints'' = Inr (Some (JArr (c # cs)))"
                  using co by auto
                show thesis
                proof (cases "\<exists>xs. allowedRaw = Some (JArr xs)")
                  case False
                  then have "\<forall>xs. allowedRaw \<noteq> Some (JArr xs)" by simp
                  with policy pv em' contracts ad' found co' aa show thesis
                    by (rule that(9))
                next
                  case True
                  then obtain allowedActions where
                    aa': "getProp policy ''allowedActions'' = Inr (Some (JArr allowedActions))"
                    using aa by auto
                  show thesis
                  proof (cases "JStr act \<in> set allowedActions")
                    case False
                    with policy pv em' contracts ad' found co' aa' show thesis
                      by (rule that(10))
                  next
                    case True
                    with policy pv em' contracts ad' found co' aa' show thesis
                      by (rule that(11))
                  qed
                qed
              qed
            qed
          qed
        qed
      qed
    qed
  qed
qed

lemma readJson_clock [simp]: "readJson (h\<lparr>toISOString := t\<rparr>) p root = readJson h p root"
  by (simp add: readJson_def split: sum.splits)

lemma stringOrUnknown_cases:
  "stringOrUnknown r = ''unknown'' \<or> r = Some (JStr (stringOrUnknown r))"
proof (cases r)
  case None
  then show ?thesis by simp
next
  case (Some v)
  then show ?thesis by (cases v) simp_all
qed


text \<open>The function throws in these cases only.\<close>

lemma throws_only_on_null_or_unprintable:
  assumes "enforcePolicyGatedAdapter h root adapterName act = Inl e"
  shows "readJson h COMMAND_POLICY_PATH root = Inr JNull
       \<or> readJson h ADAPTER_CONTRACTS_PATH root = Inr JNull
       \<or> (\<exists>policy allowedActions.
             readJson h COMMAND_POLICY_PATH root = Inr policy
           \<and> getProp policy ''allowedActions'' = Inr (Some (JArr allowedActions))
           \<and> JStr act \<notin> set allowedActions
           \<and> joinJS (numberToString h) '', '' allowedActions = Inl e)"
proof (cases rule: gate_paths[where h = h and root = root and adapterName = adapterName and act = act])
  case (policy_unreadable msg)
  with assms show ?thesis by (simp add: enforce_policy_unreadable)
next
  case policy_null
  then show ?thesis by simp
next
  case (mode_not_enforce policy pvRaw emRaw)
  with assms show ?thesis by (simp add: enforce_mode_not_enforce)
next
  case (contracts_unreadable policy pvRaw msg)
  with assms show ?thesis by (simp add: enforce_contracts_unreadable)
next
  case (contracts_null policy pvRaw)
  then show ?thesis by simp
next
  case (adapters_not_array policy pvRaw contracts adaptersRaw)
  with assms show ?thesis by (simp add: enforce_adapters_not_array)
next
  case (adapter_missing policy pvRaw contracts adapters)
  with assms show ?thesis by (simp add: enforce_adapter_missing)
next
  case (no_constraints policy pvRaw contracts adapters adapterFound constraintsRaw)
  with assms show ?thesis by (simp add: enforce_no_constraints)
next
  case (actions_not_array policy pvRaw contracts adapters adapterFound c cs allowedRaw)
  with assms show ?thesis by (simp add: enforce_actions_not_array)
next
  case (action_denied policy pvRaw contracts adapters adapterFound c cs allowedActions)
  from assms have "joinJS (numberToString h) '', '' allowedActions = Inl e"
    unfolding enforce_action_denied[OF action_denied]
    by (simp split: sum.splits)
  with action_denied show ?thesis by simp
next
  case (action_allowed policy pvRaw contracts adapters adapterFound c cs allowedActions)
  with assms show ?thesis by (simp add: enforce_action_allowed)
qed

subsection \<open>The example host\<close>

lemma fixture_reads:
  "readJson (fixtureHost policy contracts clock) COMMAND_POLICY_PATH ''/repo'' = policy"
  "readJson (fixtureHost policy contracts clock) ADAPTER_CONTRACTS_PATH ''/repo'' = contracts"
  by (simp_all add: readJson_def fixtureHost_def COMMAND_POLICY_PATH_def ADAPTER_CONTRACTS_PATH_def)

lemma fixture_fields [simp]:
  "toISOString (fixtureHost policy contracts clock) = clock"
  "numberToString (fixtureHost policy contracts clock) = showNat"
  by (simp_all add: fixtureHost_def)

lemma valid_passes:
  \<open>enforcePolicyGatedAdapter (fixtureHost (Inr validPolicy) (Inr validContracts) clock)
     ''/repo'' ''repo-write'' ''open-pr'' =
   Inr \<lparr>gate = ''policy-gated-adapter'', adapter = ''repo-write'', action = ''open-pr'',
        timestamp = clock, result = PASS,
        reason = ''adapter "repo-write" with action "open-pr" passed policy gate (enforcement: enforce, policy: v1.0.0)'',
        evidence = ''.GITHUB-MODE/runtime/command-policy.json, .GITHUB-MODE/runtime/adapter-contracts.json'',
        policyVersion = ''v1.0.0'', enforcementMode = ''enforce''\<rparr>\<close>
  by (simp add: enforcePolicyGatedAdapter_def fixture_reads validPolicy_def policyWithMode_def
      validContracts_def spread_def)
     (simp add: COMMAND_POLICY_PATH_def ADAPTER_CONTRACTS_PATH_def)

lemma unprintable_action_throws:
  "enforcePolicyGatedAdapter (fixtureHost (Inr unprintablePolicy) (Inr validContracts) clock1)
     ''/repo'' ''repo-write'' ''open-pr'' = Inl TypeError"
  by (simp add: enforcePolicyGatedAdapter_def fixture_reads unprintablePolicy_def
      validContracts_def)

subsection \<open>The claims on the policy gate\<close>

text \<open>
  C1. The claim: for every root, adapter name and action the function returns a
  decision and never throws; every way of failing to read or interpret the two
  documents, a parsed value of the wrong shape or type among them, becomes a FAIL
  decision. The comment above the function says the same (any missing data or
  invalid state results in FAIL), and \<open>adapters.find\<close> guards its elements against
  \<open>null\<close>. The function does not do it for the documents themselves: with a
  \<open>command-policy.json\<close> whose text is \<open>null\<close>, \<open>JSON.parse\<close> returns \<open>null\<close>, the
  read of \<open>commandPolicy.policyVersion\<close> below the \<open>try\<close> throws a TypeError, and
  no decision is returned. (\<open>unprintable_action_throws\<close> is a second such input:
  a denied action with an allowed action that \<open>join\<close> cannot render;
  \<open>throws_only_on_null_or_unprintable\<close> lists all of them.)
\<close>

theorem null_policy_document_throws:
  "enforcePolicyGatedAdapter (fixtureHost (Inr JNull) (Inr validContracts) clock1)
     ''/repo'' ''repo-write'' ''open-pr'' = Inl TypeError"
  by (rule enforce_policy_null) (simp add: fixture_reads)

text \<open>
  C4. The claim: whenever \<open>enforcementMode\<close> of the command policy is not the string
  \<open>enforce\<close> (absent and non-string values included), the result is a FAIL decision
  whose reason contains the observed mode. This fails for a mode that is not a
  string: the reason then names the sentinel \<open>unknown\<close>, as the counterexample shows
  for the mode \<open>true\<close>. What holds, for a policy document that was read and is not
  \<open>null\<close>: the decision is FAIL, and its reason and its \<open>enforcementMode\<close> carry the
  mode when it is a string and \<open>unknown\<close> when it is absent or not a string.
\<close>

theorem mode_other_than_enforce_fails:
  assumes "readJson h COMMAND_POLICY_PATH root = Inr policy"
    and "policy \<noteq> JNull"
    and "getProp policy ''enforcementMode'' \<noteq> Inr (Some (JStr ''enforce''))"
  shows "\<exists>d. enforcePolicyGatedAdapter h root adapterName act = Inr d
           \<and> result d = FAIL
           \<and> (\<forall>m. getProp policy ''enforcementMode'' = Inr (Some (JStr m))
                 \<longrightarrow> enforcementMode d = m \<and> sublist m (reason d))
           \<and> ((\<forall>m. getProp policy ''enforcementMode'' \<noteq> Inr (Some (JStr m)))
                 \<longrightarrow> enforcementMode d = ''unknown'' \<and> sublist ''unknown'' (reason d))"
proof -
  from assms(2) obtain pvRaw emRaw where
    pv: "getProp policy ''policyVersion'' = Inr pvRaw" and
    em: "getProp policy ''enforcementMode'' = Inr emRaw"
    using getProp_not_null by meson
  with assms(3) have ne: "emRaw \<noteq> Some (JStr ''enforce'')" by simp
  let ?why = \<open>''command-policy enforcementMode is "'' @ stringOrUnknown emRaw
                 @ ''", expected "enforce" '' @ EM_DASH @ '' fail-closed denial''\<close>
  let ?d = "spread (baseOf h adapterName act) FAIL ?why
              COMMAND_POLICY_PATH (stringOrUnknown pvRaw) (stringOrUnknown emRaw)"
  have eq: "enforcePolicyGatedAdapter h root adapterName act = Inr ?d"
    by (rule enforce_mode_not_enforce[OF assms(1) pv em ne])
  have fields: "result ?d = FAIL" "enforcementMode ?d = stringOrUnknown emRaw"
    "reason ?d = ?why"
    by (simp_all add: spread_def)
  have named: "sublist (stringOrUnknown emRaw) (reason ?d)"
    unfolding fields(3) by (rule sublist_appendI)
  have unknown: "stringOrUnknown emRaw = ''unknown''" if "\<forall>m. emRaw \<noteq> Some (JStr m)"
    using stringOrUnknown_cases[of emRaw] that by auto
  have "(\<forall>m. getProp policy ''enforcementMode'' = Inr (Some (JStr m))
            \<longrightarrow> enforcementMode ?d = m \<and> sublist m (reason ?d))"
    using named fields(2) em by auto
  moreover have "((\<forall>m. getProp policy ''enforcementMode'' \<noteq> Inr (Some (JStr m)))
            \<longrightarrow> enforcementMode ?d = ''unknown'' \<and> sublist ''unknown'' (reason ?d))"
    using named fields(2) em unknown by auto
  ultimately show ?thesis
    using eq fields(1) by blast
qed

theorem mode_other_than_enforce_fails_witness:
  "\<exists>d. enforcePolicyGatedAdapter
          (fixtureHost (Inr (policyWithMode (Some (JStr ''audit'')))) (Inr validContracts) clock1)
          ''/repo'' ''repo-write'' ''open-pr'' = Inr d
       \<and> result d = FAIL \<and> enforcementMode d = ''audit'' \<and> sublist ''audit'' (reason d)"
proof -
  let ?p = "policyWithMode (Some (JStr ''audit''))"
  let ?h = "fixtureHost (Inr ?p) (Inr validContracts) clock1"
  have 1: "readJson ?h COMMAND_POLICY_PATH ''/repo'' = Inr ?p"
    by (simp add: fixture_reads)
  have 2: "?p \<noteq> JNull"
    by (simp add: policyWithMode_def)
  have 3: "getProp ?p ''enforcementMode'' = Inr (Some (JStr ''audit''))"
    by (simp add: policyWithMode_def)
  then have 4: "getProp ?p ''enforcementMode'' \<noteq> Inr (Some (JStr ''enforce''))"
    by simp
  from mode_other_than_enforce_fails[OF 1 2 4, of "''repo-write''" "''open-pr''"] 3
  show ?thesis by auto
qed

theorem mode_not_a_string_counterexample:
  \<open>getProp (policyWithMode (Some (JBool True))) ''enforcementMode'' = Inr (Some (JBool True))
   \<and> toStringJS showNat (JBool True) = Inr ''true''
   \<and> enforcePolicyGatedAdapter
        (fixtureHost (Inr (policyWithMode (Some (JBool True)))) (Inr validContracts) clock1)
        ''/repo'' ''repo-write'' ''open-pr'' =
      Inr \<lparr>gate = ''policy-gated-adapter'', adapter = ''repo-write'', action = ''open-pr'',
           timestamp = clock1, result = FAIL,
           reason = ''command-policy enforcementMode is "unknown", expected "enforce" ''
                      @ EM_DASH @ '' fail-closed denial'',
           evidence = COMMAND_POLICY_PATH,
           policyVersion = ''v1.0.0'', enforcementMode = ''unknown''\<rparr>
   \<and> \<not> sublist ''true''
         (''command-policy enforcementMode is "unknown", expected "enforce" ''
            @ EM_DASH @ '' fail-closed denial'')\<close>
proof -
  let ?p = "policyWithMode (Some (JBool True))"
  let ?h = "fixtureHost (Inr ?p) (Inr validContracts) clock1"
  have 1: "readJson ?h COMMAND_POLICY_PATH ''/repo'' = Inr ?p"
    by (simp add: fixture_reads)
  have 2: "getProp ?p ''policyVersion'' = Inr (Some (JStr ''v1.0.0''))"
    by (simp add: policyWithMode_def)
  have 3: "getProp ?p ''enforcementMode'' = Inr (Some (JBool True))"
    by (simp add: policyWithMode_def)
  have 4: "Some (JBool True) \<noteq> Some (JStr ''enforce'')"
    by simp
  have 5: \<open>\<not> sublist ''true''
         (''command-policy enforcementMode is "unknown", expected "enforce" ''
            @ EM_DASH @ '' fail-closed denial'')\<close>
    by (simp add: EM_DASH_def sublist_Cons_right)
  show ?thesis
    using 3 5 enforce_mode_not_enforce[OF 1 2 3 4, of "''repo-write''" "''open-pr''"]
    by (simp add: spread_def)
qed




text \<open>
  C7. When the command policy is read and its mode is \<open>enforce\<close>, the adapter
  contracts are read and \<open>adapters\<close> is an array, and no element of the array is an
  object whose \<open>name\<close> is the adapter name, the result is a FAIL decision whose reason
  contains both \<open>not found\<close> and \<open>fail-closed\<close>.
\<close>

theorem unknown_adapter_fails:
  assumes "readJson h COMMAND_POLICY_PATH root = Inr policy"
    and "getProp policy ''enforcementMode'' = Inr (Some (JStr ''enforce''))"
    and "readJson h ADAPTER_CONTRACTS_PATH root = Inr contracts"
    and "getProp contracts ''adapters'' = Inr (Some (JArr adapters))"
    and "\<forall>a \<in> set adapters. \<forall>kvs. a = JObj kvs \<longrightarrow> map_of kvs ''name'' \<noteq> Some (JStr adapterName)"
  shows "\<exists>d. enforcePolicyGatedAdapter h root adapterName act = Inr d
           \<and> result d = FAIL
           \<and> sublist ''not found'' (reason d)
           \<and> sublist ''fail-closed'' (reason d)"
proof -
  from assms(2) have "policy \<noteq> JNull" by auto
  then obtain pvRaw where pv: "getProp policy ''policyVersion'' = Inr pvRaw"
    using getProp_not_null by blast
  from assms(5) have "find (isNamed adapterName) adapters = None"
    by (auto simp: find_None_iff isNamed_iff)
  note eq = enforce_adapter_missing[OF assms(1) pv assms(2) assms(3) assms(4) this]
  show ?thesis
    unfolding eq
    by (simp add: spread_def sublist_append sublist_Cons_right)
qed

theorem unknown_adapter_fails_witness:
  "\<exists>d. enforcePolicyGatedAdapter (fixtureHost (Inr validPolicy) (Inr validContracts) clock1)
          ''/repo'' ''nonexistent-adapter'' ''open-pr'' = Inr d
       \<and> result d = FAIL
       \<and> sublist ''not found'' (reason d)
       \<and> sublist ''fail-closed'' (reason d)"
proof (rule unknown_adapter_fails)
  show "readJson (fixtureHost (Inr validPolicy) (Inr validContracts) clock1)
          COMMAND_POLICY_PATH ''/repo'' = Inr validPolicy"
    by (simp add: fixture_reads)
  show "getProp validPolicy ''enforcementMode'' = Inr (Some (JStr ''enforce''))"
    by (simp add: validPolicy_def policyWithMode_def)
  show "readJson (fixtureHost (Inr validPolicy) (Inr validContracts) clock1)
          ADAPTER_CONTRACTS_PATH ''/repo'' = Inr validContracts"
    by (simp add: fixture_reads)
  show "getProp validContracts ''adapters'' =
          Inr (Some (JArr [JObj [(''name'', JStr ''repo-write''),
                        (''trustLevels'', JArr [JStr ''trusted'']),
                        (''constraints'',
                         JArr [JStr ''No direct writes to protected branches.''])],
                  JObj [(''name'', JStr ''policy-sim''),
                        (''trustLevels'', JArr [JStr ''untrusted'', JStr ''trusted'']),
                        (''constraints'',
                         JArr [JStr ''Read-only execution in untrusted contexts.''])]]))"
    by (simp add: validContracts_def)
  show "\<forall>a\<in>set [JObj [(''name'', JStr ''repo-write''),
                        (''trustLevels'', JArr [JStr ''trusted'']),
                        (''constraints'',
                         JArr [JStr ''No direct writes to protected branches.''])],
                  JObj [(''name'', JStr ''policy-sim''),
                        (''trustLevels'', JArr [JStr ''untrusted'', JStr ''trusted'']),
                        (''constraints'',
                         JArr [JStr ''Read-only execution in untrusted contexts.''])]].
          \<forall>kvs. a = JObj kvs \<longrightarrow> map_of kvs ''name'' \<noteq> Some (JStr ''nonexistent-adapter'')"
    by auto
qed

text \<open>
  C8. Every decision the function returns, PASS or FAIL, has its nine fields: \<open>gate\<close>
  is the constant \<open>policy-gated-adapter\<close>, \<open>adapter\<close> and \<open>action\<close> are the
  arguments, \<open>timestamp\<close> is the clock, \<open>result\<close> is PASS or FAIL, \<open>reason\<close> is not
  empty, \<open>evidence\<close> is one of the two paths or both, and \<open>policyVersion\<close> and
  \<open>enforcementMode\<close> are the strings of the policy document or \<open>unknown\<close>.
\<close>

theorem every_decision_complete:
  assumes "enforcePolicyGatedAdapter h root adapterName act = Inr d"
  shows "gate d = ''policy-gated-adapter'' \<and> adapter d = adapterName \<and> action d = act
     \<and> timestamp d = toISOString h
     \<and> (result d = PASS \<or> result d = FAIL)
     \<and> reason d \<noteq> []
     \<and> (evidence d = COMMAND_POLICY_PATH \<or> evidence d = ADAPTER_CONTRACTS_PATH
          \<or> evidence d = COMMAND_POLICY_PATH @ '', '' @ ADAPTER_CONTRACTS_PATH)
     \<and> (policyVersion d = ''unknown'' \<or>
          (\<exists>policy. readJson h COMMAND_POLICY_PATH root = Inr policy
             \<and> getProp policy ''policyVersion'' = Inr (Some (JStr (policyVersion d)))))
     \<and> (enforcementMode d = ''unknown'' \<or>
          (\<exists>policy. readJson h COMMAND_POLICY_PATH root = Inr policy
             \<and> getProp policy ''enforcementMode'' = Inr (Some (JStr (enforcementMode d)))))"
proof (cases rule: gate_paths[where h = h and root = root and adapterName = adapterName and act = act])
  case (policy_unreadable msg)
  from assms show ?thesis
    unfolding enforce_policy_unreadable[OF policy_unreadable]
    by (auto simp: spread_def)
next
  case policy_null
  from assms show ?thesis
    unfolding enforce_policy_null[OF policy_null] by simp
next
  case (mode_not_enforce policy pvRaw emRaw)
  from assms show ?thesis
    unfolding enforce_mode_not_enforce[OF mode_not_enforce]
    using stringOrUnknown_cases[of pvRaw] stringOrUnknown_cases[of emRaw] mode_not_enforce(1-3)
    by (auto simp: spread_def)
next
  case (contracts_unreadable policy pvRaw msg)
  from assms show ?thesis
    unfolding enforce_contracts_unreadable[OF contracts_unreadable]
    using stringOrUnknown_cases[of pvRaw] contracts_unreadable(1-3)
    by (auto simp: spread_def)
next
  case (contracts_null policy pvRaw)
  from assms show ?thesis
    unfolding enforce_contracts_null[OF contracts_null] by simp
next
  case (adapters_not_array policy pvRaw contracts adaptersRaw)
  from assms show ?thesis
    unfolding enforce_adapters_not_array[OF adapters_not_array]
    using stringOrUnknown_cases[of pvRaw] adapters_not_array(1-3)
    by (auto simp: spread_def)
next
  case (adapter_missing policy pvRaw contracts adapters)
  from assms show ?thesis
    unfolding enforce_adapter_missing[OF adapter_missing]
    using stringOrUnknown_cases[of pvRaw] adapter_missing(1-3)
    by (auto simp: spread_def)
next
  case (no_constraints policy pvRaw contracts adapters adapterFound constraintsRaw)
  from assms show ?thesis
    unfolding enforce_no_constraints[OF no_constraints]
    using stringOrUnknown_cases[of pvRaw] no_constraints(1-3)
    by (auto simp: spread_def)
next
  case (actions_not_array policy pvRaw contracts adapters adapterFound c cs allowedRaw)
  from assms show ?thesis
    unfolding enforce_actions_not_array[OF actions_not_array]
    using stringOrUnknown_cases[of pvRaw] actions_not_array(1-3)
    by (auto simp: spread_def)
next
  case (action_denied policy pvRaw contracts adapters adapterFound c cs allowedActions)
  from assms show ?thesis
    unfolding enforce_action_denied[OF action_denied]
    using stringOrUnknown_cases[of pvRaw] action_denied(1-3)
    by (auto simp: spread_def split: sum.splits)
next
  case (action_allowed policy pvRaw contracts adapters adapterFound c cs allowedActions)
  from assms show ?thesis
    unfolding enforce_action_allowed[OF action_allowed]
    using stringOrUnknown_cases[of pvRaw] action_allowed(1-3)
    by (auto simp: spread_def)
qed

theorem every_decision_complete_witness:
  "\<exists>d. enforcePolicyGatedAdapter (fixtureHost (Inr validPolicy) (Inr validContracts) clock1)
          ''/repo'' ''repo-write'' ''open-pr'' = Inr d
       \<and> result d = PASS
       \<and> gate d = ''policy-gated-adapter'' \<and> adapter d = ''repo-write''
       \<and> action d = ''open-pr'' \<and> timestamp d = clock1 \<and> reason d \<noteq> []
       \<and> policyVersion d = ''v1.0.0'' \<and> enforcementMode d = ''enforce''"
  using every_decision_complete[OF valid_passes[of clock1]] valid_passes[of clock1]
  by simp

section \<open>Properties of the scoreboard checks\<close>

subsection \<open>\<open>toSorted\<close>\<close>

lemma mset_insertSorted: "mset (insertSorted cmp x xs) = add_mset x (mset xs)"
  by (induction xs) simp_all

lemma mset_toSorted: "mset (toSorted cmp xs) = mset xs"
  unfolding toSorted_def by (induction xs) (simp_all add: mset_insertSorted)

lemma set_toSorted: "set (toSorted cmp xs) = set xs"
  using mset_toSorted[of cmp xs] by (metis set_mset_mset)

lemma sorted_insertSorted:
  assumes total: "\<forall>a b. cmp a b \<le> 0 \<or> cmp b a \<le> 0"
    and trans: "\<forall>a b c. cmp a b \<le> 0 \<and> cmp b c \<le> 0 \<longrightarrow> cmp a c \<le> 0"
    and "sorted_wrt (\<lambda>a b. cmp a b \<le> 0) xs"
  shows "sorted_wrt (\<lambda>a b. cmp a b \<le> 0) (insertSorted cmp x xs)"
  using assms(3)
proof (induction xs)
  case Nil
  then show ?case by simp
next
  case (Cons y ys)
  show ?case
  proof (cases "cmp x y \<le> 0")
    case True
    with Cons.prems trans have "\<forall>z\<in>set ys. cmp x z \<le> 0"
      by (metis sorted_wrt.simps(2))
    with True Cons.prems show ?thesis by simp
  next
    case False
    with total have "cmp y x \<le> 0" by blast
    moreover have "set (insertSorted cmp x ys) = insert x (set ys)"
      using mset_insertSorted[of cmp x ys] by (metis set_mset_add_mset_insert set_mset_mset)
    ultimately show ?thesis
      using False Cons by simp
  qed
qed

lemma sorted_toSorted:
  assumes "\<forall>a b. cmp a b \<le> 0 \<or> cmp b a \<le> 0"
    and "\<forall>a b c. cmp a b \<le> 0 \<and> cmp b c \<le> 0 \<longrightarrow> cmp a c \<le> 0"
  shows "sorted_wrt (\<lambda>a b. cmp a b \<le> 0) (toSorted cmp xs)"
  unfolding toSorted_def
  by (induction xs) (simp_all add: sorted_insertSorted[OF assms])

lemma sorted_wrt_unique:
  assumes "sorted_wrt R xs" and "sorted_wrt R ys" and "mset xs = mset ys"
    and "\<forall>x\<in>set xs. \<forall>y\<in>set xs. R x y \<and> R y x \<longrightarrow> x = y"
  shows "xs = ys"
  using assms
proof (induction xs arbitrary: ys)
  case Nil
  then show ?case by simp
next
  case (Cons x xs)
  from Cons.prems(3) obtain y ys' where ys: "ys = y # ys'"
    by (cases ys) auto
  have sets: "set (x # xs) = set ys"
    using Cons.prems(3) by (metis set_mset_mset)
  have "x = y"
  proof (rule ccontr)
    assume ne: "x \<noteq> y"
    with sets ys have "x \<in> set ys'" and "y \<in> set xs" by auto
    with Cons.prems(1,2) ys have "R y x" and "R x y" by auto
    moreover have "y \<in> set (x # xs)" using \<open>y \<in> set xs\<close> by simp
    ultimately show False using Cons.prems(4) ne by auto
  qed
  with Cons.prems ys have "xs = ys'"
    by (intro Cons.IH) auto
  with \<open>x = y\<close> ys show ?case by simp
qed

text \<open>Stability: the elements of a class whose members compare equal keep their order.\<close>

lemma filter_insertSorted:
  assumes "\<forall>a b. P a \<and> P b \<longrightarrow> cmp a b \<le> 0"
  shows "filter P (insertSorted cmp x ys) = (if P x then x # filter P ys else filter P ys)"
proof (induction ys)
  case Nil
  show ?case by simp
next
  case (Cons y ys)
  show ?case
  proof (cases "cmp x y \<le> 0")
    case True
    then show ?thesis by simp
  next
    case False
    with assms have "\<not> (P x \<and> P y)" by blast
    with False Cons show ?thesis by auto
  qed
qed

lemma filter_toSorted:
  assumes "\<forall>a b. P a \<and> P b \<longrightarrow> cmp a b \<le> 0"
  shows "filter P (toSorted cmp xs) = filter P xs"
  unfolding toSorted_def
  by (induction xs) (simp_all add: filter_insertSorted[OF assms])

text \<open>The order of \<open>toSorted()\<close> without a comparator is a consistent comparator.\<close>

lemma compareCodeUnits_total: "compareCodeUnits a b \<le> 0 \<or> compareCodeUnits b a \<le> 0"
proof (induction a b rule: compareCodeUnits.induct)
  case (4 x xs y ys)
  consider "unitKey x < unitKey y" | "unitKey y < unitKey x" | "unitKey x = unitKey y"
    by linarith
  then show ?case
  proof cases
    case 1
    then show ?thesis by simp
  next
    case 2
    then show ?thesis by simp
  next
    case 3
    with 4 show ?thesis by simp
  qed
qed simp_all

lemma compareCodeUnits_trans:
  "compareCodeUnits a b \<le> 0 \<Longrightarrow> compareCodeUnits b c \<le> 0 \<Longrightarrow> compareCodeUnits a c \<le> 0"
proof (induction a b arbitrary: c rule: compareCodeUnits.induct)
  case 1
  then show ?case by simp
next
  case (2 y ys)
  then show ?case by (cases c) simp_all
next
  case (3 x xs)
  then show ?case by simp
next
  case (4 x xs y ys)
  show ?case
  proof (cases c)
    case Nil
    with 4(3) show ?thesis by simp
  next
    case (Cons z zs)
    from 4(2) have xy: "unitKey x \<le> unitKey y"
      by (simp split: if_splits)
    from 4(3) Cons have yz: "unitKey y \<le> unitKey z"
      by (simp split: if_splits)
    show ?thesis
    proof (cases "unitKey x < unitKey z")
      case True
      with Cons show ?thesis by simp
    next
      case False
      with xy yz have eq: "unitKey x = unitKey y" "unitKey y = unitKey z" by simp_all
      with 4(2) have 1: "compareCodeUnits xs ys \<le> 0" by simp
      from eq 4(3) Cons have 2: "compareCodeUnits ys zs \<le> 0" by simp
      from eq have "compareCodeUnits xs zs \<le> 0"
        using 4(1)[OF _ _ 1 2] by simp
      with eq Cons show ?thesis by simp
    qed
  qed
qed

lemma canonicalCompare_consistent:
  "canonicalCompare a b \<le> 0 \<or> canonicalCompare b a \<le> 0"
  "canonicalCompare a b \<le> 0 \<Longrightarrow> canonicalCompare b c \<le> 0 \<Longrightarrow> canonicalCompare a c \<le> 0"
  unfolding canonicalCompare_def
  by (rule compareCodeUnits_total) (rule compareCodeUnits_trans)

subsection \<open>Counts and validation\<close>

lemma increment_fields:
  "spec_only (increment c st) = spec_only c + (if st = ''spec-only'' then 1 else 0)"
  "scaffold (increment c st) = scaffold c + (if st = ''scaffold'' then 1 else 0)"
  "operational (increment c st) = operational c + (if st = ''operational'' then 1 else 0)"
  by (simp_all add: increment_def)

lemma foldl_increment:
  "foldl (\<lambda>counts capability. increment counts (state capability)) c0 caps =
     \<lparr>spec_only = spec_only c0 + length (filter (\<lambda>c. state c = ''spec-only'') caps),
      scaffold = scaffold c0 + length (filter (\<lambda>c. state c = ''scaffold'') caps),
      operational = operational c0 + length (filter (\<lambda>c. state c = ''operational'') caps)\<rparr>"
proof (induction caps arbitrary: c0)
  case Nil
  show ?case by simp
next
  case (Cons c caps)
  show ?case
    by (simp add: Cons.IH increment_fields)
qed

lemma getScoreCounts_filter:
  "getScoreCounts scoreboard =
     \<lparr>spec_only = length (filter (\<lambda>c. state c = ''spec-only'') (capabilities scoreboard)),
      scaffold = length (filter (\<lambda>c. state c = ''scaffold'') (capabilities scoreboard)),
      operational = length (filter (\<lambda>c. state c = ''operational'') (capabilities scoreboard))\<rparr>"
  by (simp add: getScoreCounts_def foldl_increment)

lemma length_filter_mset:
  "mset xs = mset ys \<Longrightarrow> length (filter P xs) = length (filter P ys)"
  by (metis mset_filter size_mset)

lemma getScoreCounts_perm:
  "mset (capabilities a) = mset (capabilities b) \<Longrightarrow> getScoreCounts a = getScoreCounts b"
  by (simp add: getScoreCounts_filter length_filter_mset[of "capabilities a" "capabilities b"])

lemma renderSummaryMarkdown_perm:
  assumes "mset (capabilities a) = mset (capabilities b)"
  shows "renderSummaryMarkdown a = renderSummaryMarkdown b"
proof -
  have "length (capabilities a) = length (capabilities b)"
    using assms by (metis size_mset)
  then show ?thesis
    by (simp add: renderSummaryMarkdown_def getScoreCounts_perm[OF assms])
qed

lemma set_setAdd [simp]: "set (setAdd s x) = insert x (set s)"
  by (auto simp: setAdd_def)

lemma validateCapabilities_states:
  "validateCapabilities ids caps = Inr () \<Longrightarrow> \<forall>c\<in>set caps. state c \<in> set allowedStates"
proof (induction caps arbitrary: ids)
  case Nil
  then show ?case by simp
next
  case (Cons c caps)
  then show ?case
    by (auto simp: Let_def split: if_splits)
qed

lemma counts_partition:
  assumes "\<forall>c\<in>set caps. state c \<in> set allowedStates"
  shows "length (filter (\<lambda>c. state c = ''spec-only'') caps)
       + length (filter (\<lambda>c. state c = ''scaffold'') caps)
       + length (filter (\<lambda>c. state c = ''operational'') caps) = length caps"
  using assms by (induction caps) (auto simp: allowedStates_def)

lemma distinct_ids_suffice_without_ties:
  assumes "distinct (map capability_id caps)"
    and "\<forall>a b. localeCompare a b \<le> 0 \<and> localeCompare b a \<le> 0 \<longrightarrow> a = b"
  shows "\<forall>x\<in>set caps. \<forall>y\<in>set caps.
           localeCompare (capability_id x) (capability_id y) \<le> 0
           \<and> localeCompare (capability_id y) (capability_id x) \<le> 0 \<longrightarrow> x = y"
  using assms by (meson distinct_map inj_onD)

lemma validateCapabilities_distinct:
  "validateCapabilities ids caps = Inr () \<Longrightarrow>
     distinct (map capability_id caps) \<and> (\<forall>c\<in>set caps. capability_id c \<notin> set ids)"
proof (induction caps arbitrary: ids)
  case Nil
  then show ?case by simp
next
  case (Cons c caps)
  from Cons.prems have ok: "validateCapabilities (setAdd ids (capability_id c)) caps = Inr ()"
    and new: "capability_id c \<notin> set ids"
    by (auto simp: Let_def split: if_splits)
  from Cons.IH[OF ok] new show ?case by auto
qed

lemma validateScoreboard_distinct:
  "validateScoreboard scoreboard = Inr () \<Longrightarrow> distinct (map capability_id (capabilities scoreboard))"
  using validateCapabilities_distinct[of "[]" "capabilities scoreboard"]
  by (simp add: validateScoreboard_def split: if_splits)

subsection \<open>Diff entries and spec tracking\<close>

lemma hasScoreboardUpdate_iff:
  "hasScoreboardUpdate entries \<longleftrightarrow>
     (\<exists>e\<in>set entries. path e = SCOREBOARD_PATH \<and> status e \<noteq> ''D'')"
  by (simp add: hasScoreboardUpdate_def list_ex_iff)

lemma set_additions:
  "set (foldl (\<lambda>additions entry.
                 if status entry = ''A'' \<and> isSpecArtifact (path entry)
                 then setAdd additions (path entry) else additions) acc entries)
     = set acc \<union> {path e | e. e \<in> set entries \<and> status e = ''A'' \<and> isSpecArtifact (path e)}"
proof (induction entries arbitrary: acc)
  case Nil
  show ?case by simp
next
  case (Cons entry entries)
  show ?case
    unfolding foldl_Cons Cons.IH by auto
qed

lemma set_getAddedSpecArtifacts:
  "set (getAddedSpecArtifacts entries)
     = {path e | e. e \<in> set entries \<and> status e = ''A'' \<and> isSpecArtifact (path e)}"
  by (simp add: getAddedSpecArtifacts_def set_toSorted set_additions)

lemma sublist_joinStrings: "x \<in> set xs \<Longrightarrow> sublist x (joinStrings sep xs)"
proof (induction sep xs rule: joinStrings.induct)
  case (1 sep)
  then show ?case by simp
next
  case (2 sep y)
  then show ?case by simp
next
  case (3 sep y z zs)
  show ?case
  proof (cases "x = y")
    case True
    then show ?thesis by simp
  next
    case False
    with 3 have "sublist x (joinStrings sep (z # zs))" by simp
    then have "sublist x ((y @ sep) @ joinStrings sep (z # zs))"
      by (meson sublist_order.order_trans suffix_imp_sublist suffixI)
    then show ?thesis by simp
  qed
qed

lemma splitJS_no_separator: "sep \<notin> set s \<Longrightarrow> splitJS sep s = [s]"
  by (induction s) auto

lemma parseDiffLine_append: "parseDiffLine entries line = entries @ parseDiffLine [] line"
  by (simp add: parseDiffLine_def Let_def)

lemma phase6_is_spec: "isSpecArtifact ''.GITHUB-MODE/docs/planning/phase-6.md''"
  by code_simp

subsection \<open>The claims on the scoreboard checks\<close>

text \<open>
  C2. The claim: a line with at least two tab-separated fields yields exactly two
  entries with the same status when its status begins with \<open>R\<close> or \<open>C\<close>, and exactly
  one entry otherwise. A rename or copy line with no third field, or an empty one,
  yields one entry: the second \<open>push\<close> stands under \<open>if (parts[2])\<close> (the
  counterexample). What holds, for a line with at least two fields: it yields the
  entry of its second field and, when its status begins with \<open>R\<close> or \<open>C\<close> and it has
  a non-empty third field, the entry of the third field with the same status; a line
  of a longer output appends these entries to those of the lines before it.
\<close>

theorem diff_line_entries:
  assumes "2 \<le> length (splitJS (CHR 0x09) line)" and "CHR 0x0A \<notin> set line"
  shows "parseDiffEntries line =
           (let parts = splitJS (CHR 0x09) line;
                st = trim (parts ! 0);
                source = \<lparr>status = st, path = trim (parts ! 1)\<rparr>
            in if (startsWith st ''R'' \<or> startsWith st ''C'')
                  \<and> 2 < length parts \<and> parts ! 2 \<noteq> []
               then [source, \<lparr>status = st, path = trim (parts ! 2)\<rparr>]
               else [source])
       \<and> parseDiffLine entries line = entries @ parseDiffEntries line"
proof -
  have one: "parseDiffEntries line = parseDiffLine [] line"
    by (simp add: parseDiffEntries_def splitJS_no_separator[OF assms(2)])
  from assms(1) have "\<not> length (splitJS (CHR 0x09) line) < 2" by simp
  then have "parseDiffLine [] line =
           (let parts = splitJS (CHR 0x09) line;
                st = trim (parts ! 0);
                source = \<lparr>status = st, path = trim (parts ! 1)\<rparr>
            in if (startsWith st ''R'' \<or> startsWith st ''C'')
                  \<and> 2 < length parts \<and> parts ! 2 \<noteq> []
               then [source, \<lparr>status = st, path = trim (parts ! 2)\<rparr>]
               else [source])"
    by (simp add: parseDiffLine_def Let_def)
  with one parseDiffLine_append[of entries line] show ?thesis by simp
qed

theorem diff_line_entries_witness:
  "parseDiffEntries renameLine =
     [\<lparr>status = ''R100'', path = ''docs/old.md''\<rparr>, \<lparr>status = ''R100'', path = ''docs/new.md''\<rparr>]
   \<and> parseDiffLine [\<lparr>status = ''M'', path = ''README.md''\<rparr>] renameLine =
     [\<lparr>status = ''M'', path = ''README.md''\<rparr>,
      \<lparr>status = ''R100'', path = ''docs/old.md''\<rparr>, \<lparr>status = ''R100'', path = ''docs/new.md''\<rparr>]"
proof -
  have fields: "2 \<le> length (splitJS (CHR 0x09) renameLine)"
    by code_simp
  have one: "CHR 0x0A \<notin> set renameLine"
    by (simp add: renameLine_def)
  have rhs: "(let parts = splitJS (CHR 0x09) renameLine;
                st = trim (parts ! 0);
                source = \<lparr>status = st, path = trim (parts ! 1)\<rparr>
            in if (startsWith st ''R'' \<or> startsWith st ''C'')
                  \<and> 2 < length parts \<and> parts ! 2 \<noteq> []
               then [source, \<lparr>status = st, path = trim (parts ! 2)\<rparr>]
               else [source]) =
      [\<lparr>status = ''R100'', path = ''docs/old.md''\<rparr>, \<lparr>status = ''R100'', path = ''docs/new.md''\<rparr>]"
    by code_simp
  from diff_line_entries[OF fields one, of "[\<lparr>status = ''M'', path = ''README.md''\<rparr>]"]
  show ?thesis unfolding rhs by simp
qed

theorem rename_without_destination_counterexample:
  "length (splitJS (CHR 0x09) (''R100'' @ [CHR 0x09] @ ''old.md'')) = 2
   \<and> startsWith (trim (splitJS (CHR 0x09) (''R100'' @ [CHR 0x09] @ ''old.md'') ! 0)) ''R''
   \<and> parseDiffEntries (''R100'' @ [CHR 0x09] @ ''old.md'')
       = [\<lparr>status = ''R100'', path = ''old.md''\<rparr>]"
  by code_simp

text \<open>
  C3. The claim: for every scoreboard the report has the fixed timestamp and its
  capabilities sorted by id ascending, so that it is the same for every permutation
  of the input. The sort is stable, so two capabilities with the same id stay in
  their input order, and a permutation of them changes the report (the
  counterexample, and \<open>same_id_order_matters\<close> for every collation). What holds,
  for every scoreboard: \<open>generatedAt\<close> is the fixed timestamp; the capabilities of
  the report are those of the input; with \<open>localeCompare\<close> transitive, the
  capabilities whose ids compare equal to any given id stand in their input order
  (the sort is stable); with \<open>localeCompare\<close> also total, the capabilities are
  ascending by id in its order; every field but \<open>capabilities\<close> is the same for every
  permutation of the input. The whole report is the same for every permutation when,
  moreover, no two different capabilities have ids that \<open>localeCompare\<close> ties.
  Distinct ids, which \<open>validateScoreboard\<close> demands, give this only for a collation
  that ties no two different strings (\<open>distinct_ids_suffice_without_ties\<close>); a
  collation that ties canonically equivalent strings does not
  (\<open>distinct_ids_can_tie\<close>).
\<close>

theorem parity_report_deterministic:
  "generatedAt (buildParityReport localeCompare scoreboard) = ''1970-01-01T00:00:00.000Z''
   \<and> mset (report_capabilities (buildParityReport localeCompare scoreboard))
        = mset (capabilities scoreboard)
   \<and> ((\<forall>a b c. localeCompare a b \<le> 0 \<and> localeCompare b c \<le> 0 \<longrightarrow> localeCompare a c \<le> 0)
        \<longrightarrow> (\<forall>k. filter (\<lambda>c. localeCompare (capability_id c) k \<le> 0
                              \<and> localeCompare k (capability_id c) \<le> 0)
                     (report_capabilities (buildParityReport localeCompare scoreboard))
                 = filter (\<lambda>c. localeCompare (capability_id c) k \<le> 0
                              \<and> localeCompare k (capability_id c) \<le> 0)
                     (capabilities scoreboard)))
   \<and> ((\<forall>a b. localeCompare a b \<le> 0 \<or> localeCompare b a \<le> 0)
        \<and> (\<forall>a b c. localeCompare a b \<le> 0 \<and> localeCompare b c \<le> 0 \<longrightarrow> localeCompare a c \<le> 0)
        \<longrightarrow> sorted_wrt (\<lambda>a b. localeCompare (capability_id a) (capability_id b) \<le> 0)
              (report_capabilities (buildParityReport localeCompare scoreboard)))
   \<and> (mset (capabilities permuted) = mset (capabilities scoreboard)
        \<and> version permuted = version scoreboard
        \<longrightarrow> (buildParityReport localeCompare permuted)\<lparr>report_capabilities := []\<rparr>
            = (buildParityReport localeCompare scoreboard)\<lparr>report_capabilities := []\<rparr>)
   \<and> ((\<forall>a b. localeCompare a b \<le> 0 \<or> localeCompare b a \<le> 0)
        \<and> (\<forall>a b c. localeCompare a b \<le> 0 \<and> localeCompare b c \<le> 0 \<longrightarrow> localeCompare a c \<le> 0)
        \<and> (\<forall>x\<in>set (capabilities scoreboard). \<forall>y\<in>set (capabilities scoreboard).
               localeCompare (capability_id x) (capability_id y) \<le> 0
               \<and> localeCompare (capability_id y) (capability_id x) \<le> 0 \<longrightarrow> x = y)
        \<and> mset (capabilities permuted) = mset (capabilities scoreboard)
        \<and> version permuted = version scoreboard
        \<longrightarrow> buildParityReport localeCompare permuted
            = buildParityReport localeCompare scoreboard)"
proof -
  let ?cmp = "\<lambda>a b. localeCompare (capability_id a) (capability_id b)"
  let ?total = "\<forall>a b. localeCompare a b \<le> 0 \<or> localeCompare b a \<le> 0"
  let ?trans = "\<forall>a b c. localeCompare a b \<le> 0 \<and> localeCompare b c \<le> 0
                  \<longrightarrow> localeCompare a c \<le> 0"
  have stamp: "generatedAt (buildParityReport localeCompare scoreboard)
                 = ''1970-01-01T00:00:00.000Z''"
    by (simp add: buildParityReport_def)
  have same: "mset (report_capabilities (buildParityReport localeCompare scoreboard))
                = mset (capabilities scoreboard)"
    by (simp add: buildParityReport_def mset_toSorted)
  have stable: "filter (\<lambda>c. localeCompare (capability_id c) k \<le> 0
                              \<and> localeCompare k (capability_id c) \<le> 0)
                     (report_capabilities (buildParityReport localeCompare scoreboard))
                 = filter (\<lambda>c. localeCompare (capability_id c) k \<le> 0
                              \<and> localeCompare k (capability_id c) \<le> 0)
                     (capabilities scoreboard)"
    if trans: ?trans for k
  proof -
    let ?P = "\<lambda>c. localeCompare (capability_id c) k \<le> 0
                  \<and> localeCompare k (capability_id c) \<le> 0"
    have "\<forall>a b. ?P a \<and> ?P b \<longrightarrow> ?cmp a b \<le> 0"
      using trans by blast
    then have "filter ?P (toSorted ?cmp (capabilities scoreboard))
                 = filter ?P (capabilities scoreboard)"
      by (rule filter_toSorted)
    then show ?thesis by (simp add: buildParityReport_def)
  qed
  have sorted_of: "sorted_wrt (\<lambda>a b. ?cmp a b \<le> 0) (toSorted ?cmp xs)"
    if total: ?total and trans: ?trans for xs
  proof -
    have t1: "\<forall>a b. ?cmp a b \<le> 0 \<or> ?cmp b a \<le> 0"
      using total by blast
    have t2: "\<forall>a b c. ?cmp a b \<le> 0 \<and> ?cmp b c \<le> 0 \<longrightarrow> ?cmp a c \<le> 0"
      using trans by blast
    show ?thesis by (rule sorted_toSorted[OF t1 t2])
  qed
  have ascending: "sorted_wrt (\<lambda>a b. ?cmp a b \<le> 0)
                     (report_capabilities (buildParityReport localeCompare scoreboard))"
    if ?total and ?trans
    using sorted_of[OF that] by (simp add: buildParityReport_def)
  have rest: "(buildParityReport localeCompare permuted)\<lparr>report_capabilities := []\<rparr>
            = (buildParityReport localeCompare scoreboard)\<lparr>report_capabilities := []\<rparr>"
    if perm: "mset (capabilities permuted) = mset (capabilities scoreboard)"
      and vers: "version permuted = version scoreboard"
  proof -
    have "length (capabilities permuted) = length (capabilities scoreboard)"
      using perm by (metis size_mset)
    then show ?thesis
      by (simp add: buildParityReport_def vers getScoreCounts_perm[OF perm]
            renderSummaryMarkdown_perm[OF perm])
  qed
  have whole: "buildParityReport localeCompare permuted
                 = buildParityReport localeCompare scoreboard"
    if total: ?total and trans: ?trans
      and noties: "\<forall>x\<in>set (capabilities scoreboard). \<forall>y\<in>set (capabilities scoreboard).
                     ?cmp x y \<le> 0 \<and> ?cmp y x \<le> 0 \<longrightarrow> x = y"
      and perm: "mset (capabilities permuted) = mset (capabilities scoreboard)"
      and vers: "version permuted = version scoreboard"
  proof -
    have "toSorted ?cmp (capabilities scoreboard) = toSorted ?cmp (capabilities permuted)"
    proof (rule sorted_wrt_unique[OF sorted_of[OF total trans] sorted_of[OF total trans]])
      show "mset (toSorted ?cmp (capabilities scoreboard))
              = mset (toSorted ?cmp (capabilities permuted))"
        by (simp add: mset_toSorted perm)
      show "\<forall>x\<in>set (toSorted ?cmp (capabilities scoreboard)).
              \<forall>y\<in>set (toSorted ?cmp (capabilities scoreboard)).
                ?cmp x y \<le> 0 \<and> ?cmp y x \<le> 0 \<longrightarrow> x = y"
        using noties by (simp add: set_toSorted)
    qed
    moreover have "length (capabilities permuted) = length (capabilities scoreboard)"
      using perm by (metis size_mset)
    ultimately show ?thesis
      by (simp add: buildParityReport_def vers getScoreCounts_perm[OF perm]
            renderSummaryMarkdown_perm[OF perm])
  qed
  from stamp same stable ascending rest whole show ?thesis
    by blast
qed

lemma validScoreboard_report:
  "buildParityReport compareCodeUnits validScoreboard =
     \<lparr>generatedAt = ''1970-01-01T00:00:00.000Z'', scoreboardVersion = 1,
      summary = renderSummaryMarkdown validScoreboard,
      counts = \<lparr>spec_only = 1, scaffold = 1, operational = 1\<rparr>,
      totalCapabilities = 3,
      report_capabilities = [cap ''a'' ''A'' ''operational'', cap ''b'' ''B'' ''scaffold'',
                             cap ''c'' ''C'' ''spec-only'']\<rparr>"
  by (simp add: buildParityReport_def getScoreCounts_def validScoreboard_def cap_def
      increment_def toSorted_def unitKey_def)

theorem parity_report_deterministic_witness:
  "buildParityReport compareCodeUnits permutedScoreboard
     = buildParityReport compareCodeUnits validScoreboard
   \<and> generatedAt (buildParityReport compareCodeUnits validScoreboard)
       = ''1970-01-01T00:00:00.000Z''
   \<and> map capability_id (report_capabilities (buildParityReport compareCodeUnits validScoreboard))
       = [''a'', ''b'', ''c'']
   \<and> sorted_wrt (\<lambda>a b. compareCodeUnits (capability_id a) (capability_id b) \<le> 0)
        (report_capabilities (buildParityReport compareCodeUnits validScoreboard))
   \<and> filter (\<lambda>c. compareCodeUnits (capability_id c) ''same'' \<le> 0
                  \<and> compareCodeUnits ''same'' (capability_id c) \<le> 0)
        (report_capabilities (buildParityReport compareCodeUnits sameIdScoreboard))
       = [cap ''same'' ''x'' ''operational'', cap ''same'' ''y'' ''scaffold'']
   \<and> (buildParityReport compareCodeUnits sameIdPermuted)\<lparr>report_capabilities := []\<rparr>
       = (buildParityReport compareCodeUnits sameIdScoreboard)\<lparr>report_capabilities := []\<rparr>"
proof -
  have noties: "\<forall>x\<in>set (capabilities validScoreboard). \<forall>y\<in>set (capabilities validScoreboard).
                   compareCodeUnits (capability_id x) (capability_id y) \<le> 0
                   \<and> compareCodeUnits (capability_id y) (capability_id x) \<le> 0 \<longrightarrow> x = y"
    by (simp add: validScoreboard_def cap_def unitKey_def)
  have perm: "mset (capabilities permutedScoreboard) = mset (capabilities validScoreboard)"
    by (simp add: validScoreboard_def permutedScoreboard_def)
  have vers: "version permutedScoreboard = version validScoreboard"
    by (simp add: validScoreboard_def permutedScoreboard_def)
  have total: "\<forall>a b. compareCodeUnits a b \<le> 0 \<or> compareCodeUnits b a \<le> 0"
    using compareCodeUnits_total by blast
  have trans: "\<forall>a b c. compareCodeUnits a b \<le> 0 \<and> compareCodeUnits b c \<le> 0
                  \<longrightarrow> compareCodeUnits a c \<le> 0"
    using compareCodeUnits_trans by blast
  have perm2: "mset (capabilities sameIdPermuted) = mset (capabilities sameIdScoreboard)"
    by (simp add: sameIdScoreboard_def sameIdPermuted_def)
  have vers2: "version sameIdPermuted = version sameIdScoreboard"
    by (simp add: sameIdScoreboard_def sameIdPermuted_def)
  have input: "filter (\<lambda>c. compareCodeUnits (capability_id c) ''same'' \<le> 0
                  \<and> compareCodeUnits ''same'' (capability_id c) \<le> 0)
                 (capabilities sameIdScoreboard)
       = [cap ''same'' ''x'' ''operational'', cap ''same'' ''y'' ''scaffold'']"
    by (simp add: sameIdScoreboard_def cap_def)
  note valid = parity_report_deterministic
                 [of compareCodeUnits validScoreboard permutedScoreboard]
  note same = parity_report_deterministic
                 [of compareCodeUnits sameIdScoreboard sameIdPermuted]
  from valid total trans noties perm vers
  have 1: "buildParityReport compareCodeUnits permutedScoreboard
             = buildParityReport compareCodeUnits validScoreboard"
    by blast
  from valid total trans
  have 2: "sorted_wrt (\<lambda>a b. compareCodeUnits (capability_id a) (capability_id b) \<le> 0)
        (report_capabilities (buildParityReport compareCodeUnits validScoreboard))"
    by blast
  from valid
  have 3: "generatedAt (buildParityReport compareCodeUnits validScoreboard)
       = ''1970-01-01T00:00:00.000Z''"
    by blast
  from same trans
  have 4: "filter (\<lambda>c. compareCodeUnits (capability_id c) ''same'' \<le> 0
                  \<and> compareCodeUnits ''same'' (capability_id c) \<le> 0)
        (report_capabilities (buildParityReport compareCodeUnits sameIdScoreboard))
       = filter (\<lambda>c. compareCodeUnits (capability_id c) ''same'' \<le> 0
                  \<and> compareCodeUnits ''same'' (capability_id c) \<le> 0)
        (capabilities sameIdScoreboard)"
    by blast
  from same perm2 vers2
  have 5: "(buildParityReport compareCodeUnits sameIdPermuted)\<lparr>report_capabilities := []\<rparr>
       = (buildParityReport compareCodeUnits sameIdScoreboard)\<lparr>report_capabilities := []\<rparr>"
    by blast
  have 6: "map capability_id
             (report_capabilities (buildParityReport compareCodeUnits validScoreboard))
       = [''a'', ''b'', ''c'']"
    by (simp add: validScoreboard_report cap_def)
  from 1 2 3 4 5 6 input show ?thesis by simp
qed

lemma same_id_order_matters:
  "buildParityReport localeCompare sameIdScoreboard
     \<noteq> buildParityReport localeCompare sameIdPermuted"
  by (simp add: buildParityReport_def sameIdScoreboard_def sameIdPermuted_def cap_def
      toSorted_def)

theorem same_id_permutation_counterexample:
  "mset (capabilities sameIdPermuted) = mset (capabilities sameIdScoreboard)
   \<and> version sameIdPermuted = version sameIdScoreboard
   \<and> report_capabilities (buildParityReport compareCodeUnits sameIdScoreboard)
        = [cap ''same'' ''x'' ''operational'', cap ''same'' ''y'' ''scaffold'']
   \<and> report_capabilities (buildParityReport compareCodeUnits sameIdPermuted)
        = [cap ''same'' ''y'' ''scaffold'', cap ''same'' ''x'' ''operational'']
   \<and> buildParityReport compareCodeUnits sameIdScoreboard
        \<noteq> buildParityReport compareCodeUnits sameIdPermuted"
  using same_id_order_matters[of compareCodeUnits]
  by (simp add: buildParityReport_def sameIdScoreboard_def sameIdPermuted_def cap_def
      toSorted_def unitKey_def)

lemma distinct_ids_can_tie:
  "validateScoreboard accentScoreboard = Inr ()
   \<and> mset (capabilities accentPermuted) = mset (capabilities accentScoreboard)
   \<and> canonicalCompare (''caf'' @ [CHR 0xC3, CHR 0xA9]) (''cafe'' @ [CHR 0xCC, CHR 0x81]) = 0
   \<and> buildParityReport canonicalCompare accentScoreboard
        \<noteq> buildParityReport canonicalCompare accentPermuted"
proof -
  have "validateScoreboard accentScoreboard = Inr ()"
    by (simp add: validateScoreboard_def accentScoreboard_def cap_def allowedStates_def
        setAdd_def)
  moreover have "mset (capabilities accentPermuted) = mset (capabilities accentScoreboard)"
    by (simp add: accentScoreboard_def accentPermuted_def)
  moreover have tie: "canonicalCompare (''caf'' @ [CHR 0xC3, CHR 0xA9])
                        (''cafe'' @ [CHR 0xCC, CHR 0x81]) = 0"
    "canonicalCompare (''cafe'' @ [CHR 0xCC, CHR 0x81])
                        (''caf'' @ [CHR 0xC3, CHR 0xA9]) = 0"
    by (simp_all add: canonicalCompare_def unitKey_def)
  moreover have "buildParityReport canonicalCompare accentScoreboard
                   \<noteq> buildParityReport canonicalCompare accentPermuted"
    using tie
    by (simp add: buildParityReport_def accentScoreboard_def accentPermuted_def cap_def
        toSorted_def)
  ultimately show ?thesis by blast
qed

text \<open>
  C5. \<open>enforceSpecToImplementationTracking\<close> throws exactly when some entry adds a
  spec artifact (status \<open>A\<close>, a path that \<open>isSpecArtifact\<close> accepts) and no entry has
  the scoreboard path with a status other than \<open>D\<close>. The message it throws holds a
  line \<open>  - path\<close> for every added artifact, and names the scoreboard path. In every
  other case, no addition among them, it returns.
\<close>

theorem spec_tracking_enforced:
  "((\<exists>msg. enforceSpecToImplementationTracking entries = Inl msg) \<longleftrightarrow>
      (\<exists>e\<in>set entries. status e = ''A'' \<and> isSpecArtifact (path e))
      \<and> \<not> (\<exists>e\<in>set entries. path e = SCOREBOARD_PATH \<and> status e \<noteq> ''D''))
   \<and> (\<forall>msg. enforceSpecToImplementationTracking entries = Inl msg \<longrightarrow>
         (\<forall>e\<in>set entries. status e = ''A'' \<and> isSpecArtifact (path e)
            \<longrightarrow> sublist (''  - '' @ path e) msg)
         \<and> sublist SCOREBOARD_PATH msg)
   \<and> ((\<nexists>msg. enforceSpecToImplementationTracking entries = Inl msg) \<longrightarrow>
         enforceSpecToImplementationTracking entries = Inr ())"
proof -
  let ?added = "getAddedSpecArtifacts entries"
  let ?lines = "[''New planning/spec artifacts were added without updating implementation scoreboard.'',
                 ''Added artifacts:'']
                @ map (\<lambda>artifact. ''  - '' @ artifact) ?added
                @ [''Update '' @ SCOREBOARD_PATH
                     @ '' in the same change to keep spec-vs-implementation tracking current.'']"
  have empty: "?added = [] \<longleftrightarrow> \<not> (\<exists>e\<in>set entries. status e = ''A'' \<and> isSpecArtifact (path e))"
    using set_getAddedSpecArtifacts[of entries] by (auto simp flip: set_empty)
  have throws: "(\<exists>msg. enforceSpecToImplementationTracking entries = Inl msg) \<longleftrightarrow>
      (\<exists>e\<in>set entries. status e = ''A'' \<and> isSpecArtifact (path e))
      \<and> \<not> (\<exists>e\<in>set entries. path e = SCOREBOARD_PATH \<and> status e \<noteq> ''D'')"
    using empty
    by (auto simp: enforceSpecToImplementationTracking_def Let_def hasScoreboardUpdate_iff)
  have message: "(\<forall>e\<in>set entries. status e = ''A'' \<and> isSpecArtifact (path e)
            \<longrightarrow> sublist (''  - '' @ path e) msg) \<and> sublist SCOREBOARD_PATH msg"
    if "enforceSpecToImplementationTracking entries = Inl msg" for msg
  proof -
    have "enforceSpecToImplementationTracking entries =
            (if length ?added = 0 then Inr ()
             else if \<not> hasScoreboardUpdate entries then Inl (joinStrings [CHR 0x0A] ?lines)
             else Inr ())"
      unfolding enforceSpecToImplementationTracking_def Let_def by (rule refl)
    with that have msg: "msg = joinStrings [CHR 0x0A] ?lines"
      by (metis Inl_Inr_False sum.inject(1))
    have "sublist (''  - '' @ path e) msg"
      if "e \<in> set entries" "status e = ''A''" "isSpecArtifact (path e)" for e
    proof -
      from that have "path e \<in> set ?added"
        unfolding set_getAddedSpecArtifacts by blast
      then have "''  - '' @ path e \<in> set ?lines" by simp
      then show ?thesis unfolding msg by (rule sublist_joinStrings)
    qed
    moreover have "sublist SCOREBOARD_PATH msg"
    proof -
      let ?last = "''Update '' @ SCOREBOARD_PATH
                     @ '' in the same change to keep spec-vs-implementation tracking current.''"
      have "?last \<in> set ?lines" by simp
      then have "sublist ?last msg" unfolding msg by (rule sublist_joinStrings)
      moreover have "sublist SCOREBOARD_PATH ?last" by (rule sublist_appendI)
      ultimately show ?thesis by (rule sublist_order.order_trans[rotated])
    qed
    ultimately show ?thesis by blast
  qed
  have silent: "enforceSpecToImplementationTracking entries = Inr ()"
    if "\<nexists>msg. enforceSpecToImplementationTracking entries = Inl msg"
    using that by (cases "enforceSpecToImplementationTracking entries") auto
  from throws message silent show ?thesis by blast
qed

theorem spec_tracking_enforced_witness:
  "(\<exists>msg. enforceSpecToImplementationTracking unpairedEntries = Inl msg
          \<and> sublist ''  - .GITHUB-MODE/docs/planning/phase-6.md'' msg)
   \<and> enforceSpecToImplementationTracking pairedEntries = Inr ()"
proof -
  have "\<exists>msg. enforceSpecToImplementationTracking unpairedEntries = Inl msg"
    using spec_tracking_enforced[of unpairedEntries] phase6_is_spec
    by (simp add: unpairedEntries_def SCOREBOARD_PATH_def)
  then obtain msg where msg: "enforceSpecToImplementationTracking unpairedEntries = Inl msg"
    by blast
  with spec_tracking_enforced[of unpairedEntries] phase6_is_spec
  have "sublist ''  - .GITHUB-MODE/docs/planning/phase-6.md'' msg"
    by (simp add: unpairedEntries_def)
  moreover have "enforceSpecToImplementationTracking pairedEntries = Inr ()"
    using spec_tracking_enforced[of pairedEntries]
    by (simp add: pairedEntries_def SCOREBOARD_PATH_def)
  ultimately show ?thesis using msg by blast
qed

text \<open>
  C9. For a scoreboard that \<open>validateScoreboard\<close> accepts, the three counts of
  \<open>getScoreCounts\<close> add up to the number of capabilities, which is
  \<open>totalCapabilities\<close> of the report; the \<open>counts\<close> of the report are those counts.
\<close>

theorem counts_sum_to_total:
  assumes "validateScoreboard scoreboard = Inr ()"
  shows "spec_only (getScoreCounts scoreboard) + scaffold (getScoreCounts scoreboard)
           + operational (getScoreCounts scoreboard) = length (capabilities scoreboard)
       \<and> totalCapabilities (buildParityReport localeCompare scoreboard)
           = length (capabilities scoreboard)
       \<and> counts (buildParityReport localeCompare scoreboard) = getScoreCounts scoreboard"
proof -
  from assms have "validateCapabilities [] (capabilities scoreboard) = Inr ()"
    by (simp add: validateScoreboard_def split: if_splits)
  then have "\<forall>c\<in>set (capabilities scoreboard). state c \<in> set allowedStates"
    by (rule validateCapabilities_states)
  then show ?thesis
    by (simp add: getScoreCounts_filter counts_partition buildParityReport_def)
qed

lemma validScoreboard_accepted: "validateScoreboard validScoreboard = Inr ()"
  by (simp add: validateScoreboard_def validScoreboard_def cap_def allowedStates_def setAdd_def)

theorem counts_sum_to_total_witness:
  "validateScoreboard validScoreboard = Inr ()
   \<and> getScoreCounts validScoreboard = \<lparr>spec_only = 1, scaffold = 1, operational = 1\<rparr>
   \<and> spec_only (getScoreCounts validScoreboard) + scaffold (getScoreCounts validScoreboard)
        + operational (getScoreCounts validScoreboard) = 3
   \<and> totalCapabilities (buildParityReport compareCodeUnits validScoreboard) = 3"
proof -
  have "length (capabilities validScoreboard) = 3"
    by (simp add: validScoreboard_def)
  moreover have "getScoreCounts validScoreboard = \<lparr>spec_only = 1, scaffold = 1, operational = 1\<rparr>"
    by (simp add: getScoreCounts_def validScoreboard_def cap_def increment_def)
  ultimately show ?thesis
    using counts_sum_to_total[OF validScoreboard_accepted, of compareCodeUnits]
      validScoreboard_accepted
    by simp
qed

text \<open>
  C10. \<open>buildParityReport\<close> does not write its input. In a store whose cells from
  \<open>nextRef\<close> on are free, and for a scoreboard whose array is in the store: the call
  returns; afterwards the array of the scoreboard, and every other array the store
  held, has the elements it had, in the same order; the array of the report is at an
  address that held no array before, so it is not the input array; and it holds the
  sorted capabilities of the report.
\<close>

theorem buildParityReport_leaves_input:
  assumes "cells s (capabilities scoreboard) = Some caps"
    and "\<forall>a. nextRef s \<le> a \<longrightarrow> cells s a = None"
  shows "\<exists>s' report. buildParityReport_store localeCompare s scoreboard = Some (s', report)
       \<and> cells s' (capabilities scoreboard) = Some caps
       \<and> (\<forall>a. cells s a \<noteq> None \<longrightarrow> cells s' a = cells s a)
       \<and> cells s (report_capabilities report) = None
       \<and> report_capabilities report \<noteq> capabilities scoreboard
       \<and> cells s' (report_capabilities report) =
           Some (report_capabilities
                   (buildParityReport localeCompare
                      \<lparr>version = version scoreboard, capabilities = caps\<rparr>))"
proof -
  from assms have old: "capabilities scoreboard < nextRef s"
    by (metis not_le option.distinct(1))
  have frame: "a < nextRef s" if "cells s a \<noteq> None" for a
    using assms(2) that by (metis not_le)
  show ?thesis
    using old frame assms(1,2)
    by (auto simp: buildParityReport_store_def spreadArray_def toSortedArray_def allocArray_def
          buildParityReport_def Let_def)
qed

theorem buildParityReport_leaves_input_witness:
  "\<exists>s' report. buildParityReport_store compareCodeUnits exampleStore
                  \<lparr>version = 1::nat, capabilities = 0\<rparr> = Some (s', report)
       \<and> cells s' 0 = Some (capabilities validScoreboard)
       \<and> cells s' 1 = cells exampleStore 1
       \<and> report_capabilities report = 3
       \<and> cells exampleStore 3 = None
       \<and> cells s' 3 = Some [cap ''a'' ''A'' ''operational'', cap ''b'' ''B'' ''scaffold'',
                             cap ''c'' ''C'' ''spec-only'']"
proof -
  have 1: "cells exampleStore (capabilities \<lparr>version = 1::nat, capabilities = 0::nat\<rparr>)
             = Some (capabilities validScoreboard)"
    by (simp add: exampleStore_def)
  have 2: "\<forall>a. nextRef exampleStore \<le> a \<longrightarrow> cells exampleStore a = None"
    by (simp add: exampleStore_def)
  from buildParityReport_leaves_input[OF 1 2, of compareCodeUnits]
  obtain s' report where
    r: "buildParityReport_store compareCodeUnits exampleStore
          \<lparr>version = 1::nat, capabilities = 0\<rparr> = Some (s', report)"
       "cells s' 0 = Some (capabilities validScoreboard)"
       "\<forall>a. cells exampleStore a \<noteq> None \<longrightarrow> cells s' a = cells exampleStore a"
    by auto
  have 3: "buildParityReport_store compareCodeUnits exampleStore
          \<lparr>version = 1::nat, capabilities = 0\<rparr> =
        Some (\<lparr>cells = (cells exampleStore)
                  (2 \<mapsto> capabilities validScoreboard,
                   3 \<mapsto> [cap ''a'' ''A'' ''operational'', cap ''b'' ''B'' ''scaffold'',
                          cap ''c'' ''C'' ''spec-only'']),
                nextRef = 4\<rparr>,
              \<lparr>generatedAt = ''1970-01-01T00:00:00.000Z'', scoreboardVersion = 1,
               summary = renderSummaryMarkdown validScoreboard,
               counts = getScoreCounts validScoreboard,
               totalCapabilities = 3, report_capabilities = 3\<rparr>)"
    by (simp add: buildParityReport_store_def spreadArray_def toSortedArray_def allocArray_def
        exampleStore_def validScoreboard_def cap_def toSorted_def unitKey_def Let_def
        renderSummaryMarkdown_def getScoreCounts_def)
  have "cells exampleStore 1 \<noteq> None" "cells exampleStore 3 = None"
    by (simp_all add: exampleStore_def)
  with r 3 show ?thesis
    by auto
qed

section \<open>The tests of the repository, run in the model\<close>

lemma test_parses_plain_name_status_output:
  "parseDiffEntries (''A'' @ [CHR 0x09] @ ''.GITHUB-MODE/docs/planning/phase-4.md'' @ [CHR 0x0A]
                     @ ''M'' @ [CHR 0x09] @ ''README.md'')
   = [\<lparr>status = ''A'', path = ''.GITHUB-MODE/docs/planning/phase-4.md''\<rparr>,
      \<lparr>status = ''M'', path = ''README.md''\<rparr>]"
  by code_simp

lemma test_finds_added_spec_artifacts:
  "getAddedSpecArtifacts
     [\<lparr>status = ''A'', path = ''.GITHUB-MODE/docs/planning/phase-4.md''\<rparr>,
      \<lparr>status = ''A'', path = ''.GITHUB-MODE/docs/planning/README.md''\<rparr>,
      \<lparr>status = ''M'', path = ''.GITHUB-MODE/runtime/implementation-scoreboard.json''\<rparr>]
   = [''.GITHUB-MODE/docs/planning/phase-4.md'']"
  by code_simp

lemma test_tracks_scoreboard_updates:
  "hasScoreboardUpdate [\<lparr>status = ''M'', path = ''.GITHUB-MODE/runtime/implementation-scoreboard.json''\<rparr>]"
  "\<not> hasScoreboardUpdate [\<lparr>status = ''D'', path = ''.GITHUB-MODE/runtime/implementation-scoreboard.json''\<rparr>]"
  by code_simp+

lemma test_rejects_duplicate_ids:
  "validateScoreboard sameIdScoreboard = Inl ''Duplicate capability id found: same''"
  by code_simp

lemma test_renders_summary:
  "renderSummaryMarkdown validScoreboard =
     joinStrings [CHR 0x0A]
       [''- Capabilities tracked: **3**'', ''- Operational: **1**'', ''- Scaffold: **1**'',
        ''- Spec-only: **1**'', ''- Implementation ratio (operational/total): **1/3**'']"
  by code_simp

lemma test_action_not_allowed:
  \<open>enforcePolicyGatedAdapter (fixtureHost (Inr validPolicy) (Inr validContracts) clock1)
     ''/repo'' ''repo-write'' ''delete'' =
   Inr \<lparr>gate = ''policy-gated-adapter'', adapter = ''repo-write'', action = ''delete'',
        timestamp = clock1, result = FAIL,
        reason = ''action "delete" is not in allowedActions (allowed: plan, validate, open-pr) ''
                   @ EM_DASH @ '' policy denial'',
        evidence = COMMAND_POLICY_PATH,
        policyVersion = ''v1.0.0'', enforcementMode = ''enforce''\<rparr>\<close>
  by (simp add: enforcePolicyGatedAdapter_def fixture_reads validPolicy_def policyWithMode_def
      validContracts_def spread_def)

lemma test_policy_file_missing:
  "enforcePolicyGatedAdapter (fixtureHost (Inr validPolicy) (Inr validContracts) clock1)
     ''/elsewhere'' ''repo-write'' ''open-pr'' =
   Inr \<lparr>gate = ''policy-gated-adapter'', adapter = ''repo-write'', action = ''open-pr'',
        timestamp = clock1, result = FAIL,
        reason = ''failed to read command-policy.json: ENOENT: no such file or directory'',
        evidence = COMMAND_POLICY_PATH,
        policyVersion = ''unknown'', enforcementMode = ''unknown''\<rparr>"
  by (simp add: enforcePolicyGatedAdapter_def readJson_def fixtureHost_def spread_def
      COMMAND_POLICY_PATH_def ADAPTER_CONTRACTS_PATH_def)

end
